theory Spec2Isabelle
  imports
    Complex_Main
    "HOL-Library.Multiset"
    "HOL-Library.List_Lexorder"
    "HOL-Library.Char_ord"
begin

section \<open>Go library calls\<close>

text \<open>
  The repository calls a few functions of Go's standard library. Two of them work on
  Unicode text (\<^verbatim>\<open>strings.TrimSpace\<close>, \<^verbatim>\<open>strings.ToUpper\<close>) and one produces a
  \<^verbatim>\<open>float64\<close> (\<^verbatim>\<open>strconv.ParseFloat\<close>). They are parameters of the model: every theorem
  below holds for whatever these functions compute. The type \<open>'a\<close> stands for \<^verbatim>\<open>float64\<close>.
\<close>

record strings =
  TrimSpace :: "string \<Rightarrow> string"
  ToUpper :: "string \<Rightarrow> string"

text \<open>
  \<^verbatim>\<open>strings.Split(s, ",")\<close>: the separator is one ASCII byte, so splitting a byte string at
  that byte is what Go does. The result always has one more element than \<open>s\<close> has
  separators; in particular \<open>Split [] c = [[]]\<close>.
\<close>

fun Split :: "string \<Rightarrow> char \<Rightarrow> string list" where
  "Split [] sep = [[]]"
| "Split (x # xs) sep =
     (if x = sep then [] # Split xs sep
      else (case Split xs sep of
              [] \<Rightarrow> [[x]]
            | t # ts \<Rightarrow> (x # t) # ts))"

text \<open>\<^verbatim>\<open>strings.Join(elems, sep)\<close>.\<close>

fun Join :: "string list \<Rightarrow> string \<Rightarrow> string" where
  "Join [] sep = []"
| "Join [s] sep = s"
| "Join (s # t # ts) sep = s @ sep @ Join (t # ts) sep"

text \<open>
  Instances for running the model on examples. On ASCII input \<open>asciiStrings\<close> agrees
  with Go: white space is tab, line feed, vertical tab, form feed, carriage return and
  space, and only the letters a to z change case. \<open>parseDecimal\<close> reads an optional
  sign, digits and an optional fraction, the decimal literals without exponent that
  \<^verbatim>\<open>strconv.ParseFloat\<close> accepts; the result is the exact value of the literal (Go
  rounds it to the nearest \<^verbatim>\<open>float64\<close>, which keeps the sign).
\<close>

definition asciiSpace :: "char \<Rightarrow> bool" where
  "asciiSpace c = (c \<in> set [CHR 0x09, CHR 0x0A, CHR 0x0B, CHR 0x0C, CHR 0x0D, CHR '' ''])"

definition asciiUpper :: "char \<Rightarrow> char" where
  "asciiUpper c =
     (case map_of (zip ''abcdefghijklmnopqrstuvwxyz'' ''ABCDEFGHIJKLMNOPQRSTUVWXYZ'') c of
        Some u \<Rightarrow> u
      | None \<Rightarrow> c)"

definition asciiStrings :: strings where
  "asciiStrings =
     \<lparr>TrimSpace = (\<lambda>s. rev (dropWhile asciiSpace (rev (dropWhile asciiSpace s)))),
      ToUpper = map asciiUpper\<rparr>"

definition digitVal :: "char \<Rightarrow> nat option" where
  "digitVal c =
     (if CHR ''0'' \<le> c \<and> c \<le> CHR ''9'' then Some (of_char c - (48::nat)) else None)"

fun digitsVal :: "string \<Rightarrow> nat \<Rightarrow> nat option" where
  "digitsVal [] acc = Some acc"
| "digitsVal (c # cs) acc =
     (case digitVal c of None \<Rightarrow> None | Some d \<Rightarrow> digitsVal cs (10 * acc + d))"

definition parseUnsigned :: "string \<Rightarrow> real option" where
  "parseUnsigned s =
     (let ip = takeWhile (\<lambda>c. c \<noteq> CHR ''.'') s;
          fp = drop 1 (dropWhile (\<lambda>c. c \<noteq> CHR ''.'') s)
      in if ip = [] \<and> fp = [] then None
         else (case digitsVal (ip @ fp) 0 of
                 None \<Rightarrow> None
               | Some n \<Rightarrow> Some (real n / 10 ^ length fp)))"

definition parseDecimal :: "string \<Rightarrow> real option" where
  "parseDecimal s =
     (case s of
        [] \<Rightarrow> None
      | c # cs \<Rightarrow>
          if c = CHR ''-'' then map_option uminus (parseUnsigned cs)
          else if c = CHR ''+'' then parseUnsigned cs
          else parseUnsigned s)"

section \<open>Errors\<close>

text \<open>
  One constructor for each place where the source builds an error. An error made with
  \<^verbatim>\<open>%w\<close> keeps the error it wraps.
\<close>

datatype error =
    InvalidPair string
  | NoValidPair
  | InvalidPairs error
  | FetchFailed error
  | NoPairsProvided
  | CallFailed
  | BadStatus nat
  | ReadBodyFailed
  | UnmarshalFailed
  | KrakenAPIError "string list"
  | NoDataReturned string
  | NoDataFound string string
  | InvalidTickerData string string
  | ParseAmountFailed string string

section \<open>internal/domain: pairs and prices\<close>

record Pair =
  Value :: string

definition BTCUSD :: string where "BTCUSD = ''BTC/USD''"
definition BTCCHF :: string where "BTCCHF = ''BTC/CHF''"
definition BTCEUR :: string where "BTCEUR = ''BTC/EUR''"

text \<open>The map \<^verbatim>\<open>validPairs\<close>, read with the default \<^verbatim>\<open>false\<close> of a missing key.\<close>

definition validPairs :: "string \<Rightarrow> bool" where
  "validPairs v = (v = BTCUSD \<or> v = BTCCHF \<or> v = BTCEUR)"

definition NewPair :: "strings \<Rightarrow> string \<Rightarrow> error + Pair" where
  "NewPair lib v =
     (let v' = ToUpper lib (TrimSpace lib v)
      in if \<not> validPairs v' then Inl (InvalidPair v') else Inr \<lparr>Value = v'\<rparr>)"

definition IsValidPair :: "strings \<Rightarrow> string \<Rightarrow> bool" where
  "IsValidPair lib v = validPairs (ToUpper lib (TrimSpace lib v))"

text \<open>
  The loop of \<^verbatim>\<open>ParsePairs\<close> over the tokens, with its two accumulators: the result
  slice and the map \<^verbatim>\<open>seen\<close>.
\<close>

fun parseTokens ::
  "strings \<Rightarrow> string list \<Rightarrow> Pair list \<Rightarrow> (string \<Rightarrow> bool) \<Rightarrow> error + Pair list" where
  "parseTokens lib [] result seen = Inr result"
| "parseTokens lib (p # ps) result seen =
     (case NewPair lib p of
        Inl err \<Rightarrow> Inl err
      | Inr pair \<Rightarrow>
          if \<not> seen (Value pair)
          then parseTokens lib ps (result @ [pair]) (seen(Value pair := True))
          else parseTokens lib ps result seen)"

definition ParsePairs :: "strings \<Rightarrow> string \<Rightarrow> error + Pair list" where
  "ParsePairs lib pairsStr =
     (if pairsStr = [] then
        Inr [\<lparr>Value = BTCUSD\<rparr>, \<lparr>Value = BTCCHF\<rparr>, \<lparr>Value = BTCEUR\<rparr>]
      else
        (case parseTokens lib (Split pairsStr CHR '','') [] (\<lambda>_. False) of
           Inl err \<Rightarrow> Inl err
         | Inr result \<Rightarrow> if length result = 0 then Inl NoValidPair else Inr result))"

record 'a LTP =
  PairOf :: Pair
  Amount :: 'a

text \<open>
  Times and durations are counted in nanoseconds, as \<^verbatim>\<open>time.Duration\<close> does.
  \<^verbatim>\<open>time.Since\<close> saturates at about 292 years, far above one minute, so the comparison
  with \<^verbatim>\<open>time.Minute\<close> is the same on unbounded integers.
\<close>

record 'a CachedLTP =
  LTP :: "'a LTP"
  Timestamp :: int

definition Minute :: int where
  "Minute = 60 * 1000000000"

section \<open>The state a request runs in\<close>

text \<open>
  The in-memory cache (\<open>store\<close>), the clock and a log of the calls made through the two
  ports. The clock is read by \<^verbatim>\<open>time.Now\<close> and \<^verbatim>\<open>time.Since\<close>: the \<open>n\<close>-th reading returns
  \<open>clock n\<close>, and \<open>ticks\<close> counts the readings made so far, so time may pass between any
  two readings. The log lets a theorem speak about which calls a request made.
\<close>

datatype 'a event =
    RepoGetLTP Pair
  | RepoSetLTP Pair "'a LTP"
  | ExternalGetTickers "Pair list"

record 'a world =
  store :: "string \<rightharpoonup> 'a CachedLTP"
  clock :: "nat \<Rightarrow> int"
  ticks :: nat
  trace :: "'a event list"

definition Now :: "'a world \<Rightarrow> int \<times> 'a world" where
  "Now w = (clock w (ticks w), w\<lparr>ticks := Suc (ticks w)\<rparr>)"

definition Since :: "int \<Rightarrow> 'a world \<Rightarrow> int \<times> 'a world" where
  "Since t w = (case Now w of (n, w') \<Rightarrow> (n - t, w'))"

definition IsExpired :: "'a CachedLTP \<Rightarrow> 'a world \<Rightarrow> bool \<times> 'a world" where
  "IsExpired c w = (case Since (Timestamp c) w of (age, w') \<Rightarrow> (age > Minute, w'))"

definition NewCachedLTP :: "'a LTP \<Rightarrow> 'a world \<Rightarrow> 'a CachedLTP \<times> 'a world" where
  "NewCachedLTP ltp w = (case Now w of (n, w') \<Rightarrow> (\<lparr>LTP = ltp, Timestamp = n\<rparr>, w'))"

section \<open>The in-memory cache\<close>

text \<open>
  \<^verbatim>\<open>InMemoryCache.GetLTP\<close> returns a pointer and a flag; the pointer is \<open>None\<close> for
  \<^verbatim>\<open>nil\<close>. The mutex is not modelled: a call runs alone.
\<close>

definition InMemoryCache_GetLTP ::
  "Pair \<Rightarrow> 'a world \<Rightarrow> ('a CachedLTP option \<times> bool) \<times> 'a world" where
  "InMemoryCache_GetLTP pair w =
     (let w1 = w\<lparr>trace := trace w @ [RepoGetLTP pair]\<rparr>
      in case store w1 (Value pair) of
           None \<Rightarrow> ((None, False), w1)
         | Some cached \<Rightarrow>
             (case IsExpired cached w1 of
                (expired, w2) \<Rightarrow>
                  if expired then ((None, False), w2) else ((Some cached, True), w2)))"

definition InMemoryCache_SetLTP :: "Pair \<Rightarrow> 'a LTP \<Rightarrow> 'a world \<Rightarrow> 'a world" where
  "InMemoryCache_SetLTP pair ltp w =
     (let w1 = w\<lparr>trace := trace w @ [RepoSetLTP pair ltp]\<rparr>
      in case NewCachedLTP ltp w1 of
           (entry, w2) \<Rightarrow> w2\<lparr>store := (store w2)(Value pair \<mapsto> entry)\<rparr>)"

definition InMemoryCache_Clear :: "'a world \<Rightarrow> 'a world" where
  "InMemoryCache_Clear w = w\<lparr>store := Map.empty\<rparr>"

definition NewInMemoryCache :: "(nat \<Rightarrow> int) \<Rightarrow> 'a world" where
  "NewInMemoryCache clk = \<lparr>store = Map.empty, clock = clk, ticks = 0, trace = []\<rparr>"

section \<open>The Kraken client\<close>

record KrakenTickerData =
  C :: "string list"

text \<open>
  The Go map \<^verbatim>\<open>Result\<close> is an association list read with \<open>map_of\<close>; its number of keys
  is \<open>map_len\<close>. Every Go map is such a list, and every such list is a Go map.
\<close>

type_synonym ticker_map = "(string \<times> KrakenTickerData) list"

definition map_len :: "('k \<times> 'v) list \<Rightarrow> nat" where
  "map_len m = length (remdups (map fst m))"

record KrakenTickerResponse =
  Error :: "string list"
  Result :: ticker_map

text \<open>
  What \<^verbatim>\<open>httpClient.Get\<close>, \<^verbatim>\<open>io.ReadAll\<close> and \<^verbatim>\<open>json.Unmarshal\<close> give for a URL: the request
  fails, or a response arrives with a status code and a body that cannot be read, is not
  the expected JSON, or decodes to a \<open>KrakenTickerResponse\<close>.
\<close>

datatype body = ReadError | BadJSON | Decoded KrakenTickerResponse

datatype http_result = GetError | Response nat body

record KrakenClient =
  baseURL :: string
  httpClient :: "string \<Rightarrow> http_result"

definition NewKrakenClient :: "(string \<Rightarrow> http_result) \<Rightarrow> string \<Rightarrow> KrakenClient" where
  "NewKrakenClient net url =
     \<lparr>baseURL = (if url = [] then ''https://api.kraken.com/0/public'' else url),
      httpClient = net\<rparr>"

definition pairToKrakenSymbol :: "Pair \<Rightarrow> string" where
  "pairToKrakenSymbol pair =
     (case map_of [(BTCUSD, ''XBTUSD''), (BTCCHF, ''XBTCHF''), (BTCEUR, ''XBTEUR'')] (Value pair) of
        Some symbol \<Rightarrow> symbol
      | None \<Rightarrow> Value pair)"

fun tryVariants :: "ticker_map \<Rightarrow> string list \<Rightarrow> (KrakenTickerData \<times> string) option" where
  "tryVariants result [] = None"
| "tryVariants result (variant # variants) =
     (case map_of result variant of
        Some tickerData \<Rightarrow> Some (tickerData, variant)
      | None \<Rightarrow> tryVariants result variants)"

definition findKrakenSymbolInResult ::
  "ticker_map \<Rightarrow> string \<Rightarrow> KrakenTickerData \<times> string \<times> bool" where
  "findKrakenSymbolInResult result requestedSymbol =
     (case map_of result requestedSymbol of
        Some tickerData \<Rightarrow> (tickerData, requestedSymbol, True)
      | None \<Rightarrow>
          (case (if length requestedSymbol \<ge> 3 \<and> take 3 requestedSymbol = ''XBT''
                 then (let suffix = drop 3 requestedSymbol
                       in tryVariants result [''XXBTZ'' @ suffix, ''XXBT'' @ suffix])
                 else None) of
             Some (tickerData, variant) \<Rightarrow> (tickerData, variant, True)
           | None \<Rightarrow>
               (if map_len result = 1 then
                  (case result of
                     (symbol, tickerData) # _ \<Rightarrow> (tickerData, symbol, True)
                   | [] \<Rightarrow> (\<lparr>C = []\<rparr>, [], False))
                else (\<lparr>C = []\<rparr>, [], False))))"

text \<open>The loop of \<^verbatim>\<open>GetTickers\<close> that maps the response to prices, one pair at a time.\<close>

fun mapTickers ::
  "(string \<Rightarrow> 'a option) \<Rightarrow> ticker_map \<Rightarrow> Pair list \<Rightarrow> 'a LTP list \<Rightarrow> error + 'a LTP list" where
  "mapTickers ParseFloat res [] result = Inr result"
| "mapTickers ParseFloat res (pair # pairs) result =
     (let requestedSymbol = pairToKrakenSymbol pair
      in case findKrakenSymbolInResult res requestedSymbol of
           (tickerData, foundSymbol, ok) \<Rightarrow>
             if \<not> ok then Inl (NoDataFound (Value pair) requestedSymbol)
             else
               (case C tickerData of
                  [] \<Rightarrow> Inl (InvalidTickerData (Value pair) foundSymbol)
                | c0 # _ \<Rightarrow>
                    if c0 = [] then Inl (InvalidTickerData (Value pair) foundSymbol)
                    else
                      (case ParseFloat c0 of
                         None \<Rightarrow> Inl (ParseAmountFailed (Value pair) foundSymbol)
                       | Some amount \<Rightarrow>
                           mapTickers ParseFloat res pairs
                             (result @ [\<lparr>PairOf = pair, Amount = amount\<rparr>]))))"

definition GetTickers ::
  "(string \<Rightarrow> 'a option) \<Rightarrow> KrakenClient \<Rightarrow> Pair list \<Rightarrow> error + 'a LTP list" where
  "GetTickers ParseFloat k pairs =
     (if length pairs = 0 then Inl NoPairsProvided
      else
        (let symbols = map pairToKrakenSymbol pairs;
             pairParam = Join symbols '','';
             url = baseURL k @ ''/Ticker?pair='' @ pairParam
         in case httpClient k url of
              GetError \<Rightarrow> Inl CallFailed
            | Response status b \<Rightarrow>
                if status \<noteq> 200 then Inl (BadStatus status)
                else
                  (case b of
                     ReadError \<Rightarrow> Inl ReadBodyFailed
                   | BadJSON \<Rightarrow> Inl UnmarshalFailed
                   | Decoded tickerResp \<Rightarrow>
                       if length (Error tickerResp) > 0
                       then Inl (KrakenAPIError (Error tickerResp))
                       else mapTickers ParseFloat (Result tickerResp) pairs [])))"

definition GetTicker ::
  "(string \<Rightarrow> 'a option) \<Rightarrow> KrakenClient \<Rightarrow> Pair \<Rightarrow> error + 'a LTP" where
  "GetTicker ParseFloat k pair =
     (case GetTickers ParseFloat k [pair] of
        Inl err \<Rightarrow> Inl err
      | Inr ltps \<Rightarrow>
          (case ltps of
             [] \<Rightarrow> Inl (NoDataReturned (Value pair))
           | ltp # _ \<Rightarrow> Inr ltp))"

section \<open>The service\<close>

text \<open>The call through the port \<^verbatim>\<open>ports.External\<close>, logged.\<close>

definition external_GetTickers ::
  "(Pair list \<Rightarrow> error + 'a LTP list) \<Rightarrow> Pair list \<Rightarrow> 'a world \<Rightarrow>
     (error + 'a LTP list) \<times> 'a world" where
  "external_GetTickers ext pairs w = (ext pairs, w\<lparr>trace := trace w @ [ExternalGetTickers pairs]\<rparr>)"

text \<open>The first loop of \<^verbatim>\<open>GetLTPs\<close>: each pair is looked up in the cache.\<close>

fun checkCache ::
  "Pair list \<Rightarrow> 'a LTP list \<Rightarrow> Pair list \<Rightarrow> 'a world \<Rightarrow> ('a LTP list \<times> Pair list) \<times> 'a world" where
  "checkCache [] result pairsToFetch w = ((result, pairsToFetch), w)"
| "checkCache (pair # pairs) result pairsToFetch w =
     (case InMemoryCache_GetLTP pair w of
        ((cached, found), w') \<Rightarrow>
          (case cached of
             Some c \<Rightarrow>
               if found then checkCache pairs (result @ [LTP c]) pairsToFetch w'
               else checkCache pairs result (pairsToFetch @ [pair]) w'
           | None \<Rightarrow> checkCache pairs result (pairsToFetch @ [pair]) w'))"

text \<open>The second loop: each fetched price is stored and appended to the result.\<close>

fun cacheFetched :: "'a LTP list \<Rightarrow> 'a LTP list \<Rightarrow> 'a world \<Rightarrow> 'a LTP list \<times> 'a world" where
  "cacheFetched [] result w = (result, w)"
| "cacheFetched (ltp # ltps) result w =
     cacheFetched ltps (result @ [ltp]) (InMemoryCache_SetLTP (PairOf ltp) ltp w)"

text \<open>
  \<^verbatim>\<open>sort.Slice\<close> with the comparison of the pairs' values. Go does not promise a stable
  sort; \<open>sort_key\<close> is one. The theorems use only that the result is a sorted
  rearrangement of the slice.
\<close>

definition sortByPair :: "'a LTP list \<Rightarrow> 'a LTP list" where
  "sortByPair result = sort_key (\<lambda>ltp. Value (PairOf ltp)) result"

definition GetLTPs ::
  "strings \<Rightarrow> (Pair list \<Rightarrow> error + 'a LTP list) \<Rightarrow> string \<Rightarrow> 'a world \<Rightarrow>
     (error + 'a LTP list) \<times> 'a world" where
  "GetLTPs lib ext pairsStr w =
     (case ParsePairs lib pairsStr of
        Inl err \<Rightarrow> (Inl (InvalidPairs err), w)
      | Inr pairs \<Rightarrow>
          (case checkCache pairs [] [] w of
             ((result, pairsToFetch), w1) \<Rightarrow>
               if length pairsToFetch > 0 then
                 (case external_GetTickers ext pairsToFetch w1 of
                    (Inl err, w2) \<Rightarrow> (Inl (FetchFailed err), w2)
                  | (Inr ltps, w2) \<Rightarrow>
                      (case cacheFetched ltps result w2 of
                         (result', w3) \<Rightarrow> (Inr (sortByPair result'), w3)))
               else (Inr (sortByPair result), w1)))"

section \<open>The HTTP handler\<close>

datatype 'a payload = ErrorResponse error | LTPResponse "(string \<times> 'a) list"

definition StatusOK :: nat where "StatusOK = 200"
definition StatusBadRequest :: nat where "StatusBadRequest = 400"
definition StatusInternalServerError :: nat where "StatusInternalServerError = 500"

text \<open>
  \<^verbatim>\<open>Handler.GetLTP\<close>, given the service behind the port \<^verbatim>\<open>ports.LTPService\<close> and the value
  of the query parameter \<^verbatim>\<open>pairs\<close>. It returns the status code and the JSON payload.
\<close>

definition Handler_GetLTP ::
  "(string \<Rightarrow> 'w \<Rightarrow> (error + 'a LTP list) \<times> 'w) \<Rightarrow> string \<Rightarrow> 'w \<Rightarrow> (nat \<times> 'a payload) \<times> 'w" where
  "Handler_GetLTP ltpService pairsStr w =
     (case ltpService pairsStr w of
        (Inl err, w') \<Rightarrow> ((StatusBadRequest, ErrorResponse err), w')
      | (Inr ltps, w') \<Rightarrow>
          ((StatusOK, LTPResponse (map (\<lambda>ltp. (Value (PairOf ltp), Amount ltp)) ltps)), w'))"

section \<open>Symbol reconciliation, as the specification words it\<close>

text \<open>
  The specification's reading of the resolution order, to be compared with
  \<open>findKrakenSymbolInResult\<close>: the requested symbol itself, then its structural variants
  in their fixed order. \<open>hasKey\<close> says that a symbol is a key of the response.
\<close>

definition variantsOf :: "string \<Rightarrow> string list" where
  "variantsOf symbol =
     (if take 3 symbol = ''XBT'' then [''XXBTZ'' @ drop 3 symbol, ''XXBT'' @ drop 3 symbol]
      else [])"

definition candidates :: "string \<Rightarrow> string list" where
  "candidates symbol = symbol # variantsOf symbol"

definition hasKey :: "ticker_map \<Rightarrow> string \<Rightarrow> bool" where
  "hasKey m key = (map_of m key \<noteq> None)"

text \<open>The URL that \<^verbatim>\<open>GetTickers\<close> requests for a list of pairs.\<close>

definition tickerURL :: "KrakenClient \<Rightarrow> Pair list \<Rightarrow> string" where
  "tickerURL k pairs = baseURL k @ ''/Ticker?pair='' @ Join (map pairToKrakenSymbol pairs) '',''"

section \<open>What a request observes\<close>

text \<open>
  The lookups of a request, made in request order through \<open>InMemoryCache_GetLTP\<close>:
  \<open>cacheMisses\<close> are the pairs for which the cache reported not found, \<open>cacheHits\<close> the
  prices it returned for the others, and \<open>afterLookups\<close> is the state once all lookups
  are made.
\<close>

fun cacheMisses :: "Pair list \<Rightarrow> 'a world \<Rightarrow> Pair list" where
  "cacheMisses [] w = []"
| "cacheMisses (pair # pairs) w =
     (case InMemoryCache_GetLTP pair w of
        ((cached, found), w') \<Rightarrow> (if found then [] else [pair]) @ cacheMisses pairs w')"

fun cacheHits :: "Pair list \<Rightarrow> 'a world \<Rightarrow> 'a LTP list" where
  "cacheHits [] w = []"
| "cacheHits (pair # pairs) w =
     (case InMemoryCache_GetLTP pair w of
        ((cached, found), w') \<Rightarrow>
          (case cached of Some c \<Rightarrow> if found then [LTP c] else [] | None \<Rightarrow> [])
          @ cacheHits pairs w')"

fun afterLookups :: "Pair list \<Rightarrow> 'a world \<Rightarrow> 'a world" where
  "afterLookups [] w = w"
| "afterLookups (pair # pairs) w = afterLookups pairs (snd (InMemoryCache_GetLTP pair w))"

text \<open>The prices the store holds for a list of pairs, fresh or not.\<close>

fun cachedQuotes :: "'a world \<Rightarrow> Pair list \<Rightarrow> 'a LTP list" where
  "cachedQuotes w [] = []"
| "cachedQuotes w (pair # pairs) =
     (case store w (Value pair) of None \<Rightarrow> [] | Some c \<Rightarrow> [LTP c]) @ cachedQuotes w pairs"

text \<open>
  The events a call added to the log, and what they say: the arguments of the calls to
  the upstream fetcher, the pairs looked up in the cache and the entries written to it.
\<close>

definition newEvents :: "'a world \<Rightarrow> 'a world \<Rightarrow> 'a event list" where
  "newEvents w w' = drop (length (trace w)) (trace w')"

fun fetchCalls :: "'a event list \<Rightarrow> Pair list list" where
  "fetchCalls [] = []"
| "fetchCalls (ExternalGetTickers pairs # es) = pairs # fetchCalls es"
| "fetchCalls (RepoGetLTP pair # es) = fetchCalls es"
| "fetchCalls (RepoSetLTP pair ltp # es) = fetchCalls es"

fun cacheReads :: "'a event list \<Rightarrow> Pair list" where
  "cacheReads [] = []"
| "cacheReads (RepoGetLTP pair # es) = pair # cacheReads es"
| "cacheReads (ExternalGetTickers pairs # es) = cacheReads es"
| "cacheReads (RepoSetLTP pair ltp # es) = cacheReads es"

fun cacheWrites :: "'a event list \<Rightarrow> (Pair \<times> 'a LTP) list" where
  "cacheWrites [] = []"
| "cacheWrites (RepoSetLTP pair ltp # es) = (pair, ltp) # cacheWrites es"
| "cacheWrites (RepoGetLTP pair # es) = cacheWrites es"
| "cacheWrites (ExternalGetTickers pairs # es) = cacheWrites es"

text \<open>
  Every entry of the store lies under the value of its own pair. The empty store has
  this property and \<open>GetLTPs\<close>, the only caller of \<^verbatim>\<open>SetLTP\<close>, keeps it.
\<close>

definition storeKeyed :: "'a world \<Rightarrow> bool" where
  "storeKeyed w = (\<forall>key c. store w key = Some c \<longrightarrow> Value (PairOf (LTP c)) = key)"

section \<open>Example inputs\<close>

text \<open>
  A Kraken reply in the shape of the specification's example, a client that receives it
  for every URL, a client whose requests are answered with status 503, a cold cache, and
  a cache that holds a price for BTC/USD stored at time 0. The example clock advances by
  one nanosecond per reading.
\<close>

definition exResponse :: KrakenTickerResponse where
  "exResponse =
     \<lparr>Error = [],
      Result = [(''XXBTZUSD'', \<lparr>C = [''52000.12'']\<rparr>),
                (''XXBTZEUR'', \<lparr>C = [''50000.12'']\<rparr>),
                (''XBTCHF'', \<lparr>C = [''49000.12'']\<rparr>)]\<rparr>"

definition exKraken :: KrakenClient where
  "exKraken = NewKrakenClient (\<lambda>url. Response 200 (Decoded exResponse)) []"

definition exKrakenDown :: KrakenClient where
  "exKrakenDown = NewKrakenClient (\<lambda>url. Response 503 ReadError) []"

definition exCold :: "real world" where
  "exCold = NewInMemoryCache (\<lambda>n. int n)"

definition exWarm :: "real world" where
  "exWarm =
     \<lparr>store = [''BTC/USD'' \<mapsto> \<lparr>LTP = \<lparr>PairOf = \<lparr>Value = ''BTC/USD''\<rparr>, Amount = 52000\<rparr>, Timestamp = 0\<rparr>],
      clock = (\<lambda>n. int n), ticks = 1, trace = []\<rparr>"

section \<open>The Kraken client: symbol reconciliation\<close>

lemma map_len_card: "map_len m = card (dom (map_of m))"
  by (simp add: map_len_def dom_map_of_conv_image_fst length_remdups_card_conv)

lemma tryVariants_first:
  "find (hasKey m) vs = Some key \<Longrightarrow> map_of m key = Some d \<Longrightarrow> tryVariants m vs = Some (d, key)"
  by (induction vs) (auto simp: hasKey_def split: if_splits option.splits)

lemma tryVariants_none:
  "find (hasKey m) vs = None \<Longrightarrow> tryVariants m vs = None"
  by (induction vs) (auto simp: hasKey_def split: if_splits option.splits)

lemma xbt_length: "take 3 s = ''XBT'' \<Longrightarrow> 3 \<le> length s"
  by (cases s; cases "tl s"; cases "tl (tl s)") auto

lemma xbt_prefix: "(3 \<le> length s \<and> take 3 s = ''XBT'') = (take 3 s = ''XBT'')"
  using xbt_length by blast

lemma findKrakenSymbolInResult_first:
  assumes "find (hasKey m) (candidates s) = Some key" "map_of m key = Some d"
  shows "findKrakenSymbolInResult m s = (d, key, True)"
proof (cases "map_of m s")
  case (Some d')
  then have "key = s" using assms(1) by (simp add: candidates_def hasKey_def)
  then show ?thesis using Some assms(2) by (simp add: findKrakenSymbolInResult_def)
next
  case None
  then have f: "find (hasKey m) (variantsOf s) = Some key"
    using assms(1) by (simp add: candidates_def hasKey_def)
  then have x: "take 3 s = ''XBT''" by (auto simp: variantsOf_def split: if_splits)
  from f x have "tryVariants m [''XXBTZ'' @ drop 3 s, ''XXBT'' @ drop 3 s] = Some (d, key)"
    using tryVariants_first[OF _ assms(2), of "variantsOf s"] by (simp add: variantsOf_def)
  then show ?thesis using None x xbt_length[OF x]
    by (simp add: findKrakenSymbolInResult_def Let_def)
qed

lemma no_candidate:
  assumes "find (hasKey m) (candidates s) = None"
  shows "map_of m s = None"
    and "(if 3 \<le> length s \<and> take 3 s = ''XBT''
          then (let suffix = drop 3 s in tryVariants m [''XXBTZ'' @ suffix, ''XXBT'' @ suffix])
          else None) = None"
proof -
  show a: "map_of m s = None" using assms by (auto simp: candidates_def hasKey_def split: if_splits)
  have "find (hasKey m) (variantsOf s) = None"
    using assms by (auto simp: candidates_def split: if_splits)
  then have "tryVariants m (variantsOf s) = None" by (rule tryVariants_none)
  then show "(if 3 \<le> length s \<and> take 3 s = ''XBT''
          then (let suffix = drop 3 s in tryVariants m [''XXBTZ'' @ suffix, ''XXBT'' @ suffix])
          else None) = None"
    using xbt_length[of s] by (auto simp add: variantsOf_def Let_def split: if_splits)
qed

lemma single_key_head:
  assumes "dom (map_of m) = {key}" "map_of m key = Some d"
  shows "\<exists>rest. m = (key, d) # rest"
proof (cases m)
  case Nil
  then show ?thesis using assms by simp
next
  case (Cons a rest)
  obtain k' d' where a: "a = (k', d')" by (cases a)
  have "k' \<in> dom (map_of m)" using Cons a by simp
  then have "k' = key" using assms(1) by simp
  then show ?thesis using Cons a assms(2) by simp
qed

lemma findKrakenSymbolInResult_single:
  assumes "find (hasKey m) (candidates s) = None" "dom (map_of m) = {key}" "map_of m key = Some d"
  shows "findKrakenSymbolInResult m s = (d, key, True)"
proof -
  obtain rest where m: "m = (key, d) # rest" using single_key_head[OF assms(2,3)] by blast
  have l: "map_len m = 1" using assms(2) by (simp add: map_len_card)
  show ?thesis
    unfolding findKrakenSymbolInResult_def no_candidate[OF assms(1)]
    using l m by simp
qed

lemma findKrakenSymbolInResult_none:
  assumes "find (hasKey m) (candidates s) = None" "card (dom (map_of m)) \<noteq> 1"
  shows "findKrakenSymbolInResult m s = (\<lparr>C = []\<rparr>, [], False)"
  unfolding findKrakenSymbolInResult_def no_candidate[OF assms(1)]
  using assms(2) by (simp add: map_len_card)

lemma tryVariants_sound:
  "tryVariants m vs = Some (d, key) \<Longrightarrow> map_of m key = Some d"
  by (induction vs) (auto split: option.splits)

lemma findKrakenSymbolInResult_sound:
  assumes "findKrakenSymbolInResult m s = (d, key, True)"
  shows "map_of m key = Some d"
proof (cases "find (hasKey m) (candidates s)")
  case (Some k')
  then have "hasKey m k'" by (auto simp: find_Some_iff)
  then obtain d' where d': "map_of m k' = Some d'" by (auto simp: hasKey_def)
  from findKrakenSymbolInResult_first[OF Some d'] assms show ?thesis using d' by simp
next
  case None
  show ?thesis
  proof (cases "card (dom (map_of m)) = 1")
    case True
    then obtain k' where k': "dom (map_of m) = {k'}" by (auto simp: card_1_singleton_iff)
    then obtain d' where d': "map_of m k' = Some d'" by auto
    from findKrakenSymbolInResult_single[OF None k' d'] assms show ?thesis using d' by simp
  next
    case False
    from findKrakenSymbolInResult_none[OF None False] assms show ?thesis by simp
  qed
qed

lemma single_key_resolves:
  assumes "dom (map_of m) = {key}" "map_of m key = Some d"
  shows "findKrakenSymbolInResult m s = (d, key, True)"
proof (cases "find (hasKey m) (candidates s)")
  case (Some k')
  then have "hasKey m k'" by (auto simp: find_Some_iff)
  then have "k' \<in> dom (map_of m)" by (auto simp: hasKey_def)
  then have "k' = key" using assms(1) by simp
  then show ?thesis using findKrakenSymbolInResult_first[OF Some] assms(2) by simp
next
  case None
  then show ?thesis by (rule findKrakenSymbolInResult_single[OF _ assms])
qed

lemma mapTickers_unresolved_first:
  "findKrakenSymbolInResult res (pairToKrakenSymbol p) = (x, y, False) \<Longrightarrow>
   mapTickers pf res (p # ps) acc = Inl (NoDataFound (Value p) (pairToKrakenSymbol p))"
  by simp

lemma mapTickers_Inr_resolved:
  "mapTickers pf res pairs acc = Inr r \<Longrightarrow> p \<in> set pairs \<Longrightarrow>
   snd (snd (findKrakenSymbolInResult res (pairToKrakenSymbol p)))"
proof (induction pairs arbitrary: acc)
  case Nil
  then show ?case by simp
next
  case (Cons q qs)
  then show ?case
    by (auto simp: Let_def split: prod.splits if_splits list.splits option.splits)
qed

lemma mapTickers_same:
  assumes "\<And>p. p \<in> set pairs \<Longrightarrow> findKrakenSymbolInResult res (pairToKrakenSymbol p) = (d, key, True)"
    and "C d = c0 # cs" "c0 \<noteq> []" "pf c0 = Some a"
  shows "mapTickers pf res pairs acc = Inr (acc @ map (\<lambda>p. \<lparr>PairOf = p, Amount = a\<rparr>) pairs)"
  using assms(1)
proof (induction pairs arbitrary: acc)
  case Nil
  then show ?case by simp
next
  case (Cons q qs)
  then show ?case using assms(2-4) by simp
qed

lemma mapTickers_never_NoDataFound:
  assumes "\<And>p. p \<in> set pairs \<Longrightarrow> findKrakenSymbolInResult res (pairToKrakenSymbol p) = (d, key, True)"
  shows "mapTickers pf res pairs acc \<noteq> Inl (NoDataFound v s)"
  using assms
proof (induction pairs arbitrary: acc)
  case Nil
  then show ?case by simp
next
  case (Cons q qs)
  then show ?case by (auto split: list.splits option.splits)
qed

lemma mapTickers_pairs:
  "mapTickers pf res pairs acc = Inr r \<Longrightarrow> map PairOf r = map PairOf acc @ pairs"
proof (induction pairs arbitrary: acc)
  case Nil
  then show ?case by simp
next
  case (Cons q qs)
  then show ?case
    by (fastforce simp: Let_def split: prod.splits if_splits list.splits option.splits)
qed

lemma mapTickers_amounts:
  "mapTickers pf res pairs acc = Inr r \<Longrightarrow> l \<in> set r \<Longrightarrow>
   l \<in> set acc \<or> (\<exists>key d c0 cs. map_of res key = Some d \<and> C d = c0 # cs \<and> pf c0 = Some (Amount l))"
proof (induction pairs arbitrary: acc)
  case Nil
  then show ?case by simp
next
  case (Cons q qs)
  obtain d key ok where f: "findKrakenSymbolInResult res (pairToKrakenSymbol q) = (d, key, ok)"
    by (cases "findKrakenSymbolInResult res (pairToKrakenSymbol q)") auto
  from Cons.prems(1) f have ok by (auto split: if_splits)
  with f have m: "map_of res key = Some d" by (auto dest: findKrakenSymbolInResult_sound)
  from Cons.prems(1) f \<open>ok\<close> obtain c0 cs a where
    c: "C d = c0 # cs" "pf c0 = Some a"
    and rest: "mapTickers pf res qs (acc @ [\<lparr>PairOf = q, Amount = a\<rparr>]) = Inr r"
    by (auto split: list.splits if_splits option.splits)
  from Cons.IH[OF rest Cons.prems(2)] show ?case
  proof
    assume "l \<in> set (acc @ [\<lparr>PairOf = q, Amount = a\<rparr>])"
    then consider "l \<in> set acc" | "l = \<lparr>PairOf = q, Amount = a\<rparr>" by auto
    then show ?thesis
    proof cases
      case 1
      then show ?thesis by simp
    next
      case 2
      then have "pf c0 = Some (Amount l)" using c(2) by simp
      with m c(1) show ?thesis by blast
    qed
  next
    assume "\<exists>key d c0 cs. map_of res key = Some d \<and> C d = c0 # cs \<and> pf c0 = Some (Amount l)"
    then show ?thesis by simp
  qed
qed

lemma mapTickers_success:
  assumes "\<forall>p \<in> set pairs. \<exists>d key c0 cs a.
             findKrakenSymbolInResult res (pairToKrakenSymbol p) = (d, key, True) \<and>
             C d = c0 # cs \<and> c0 \<noteq> [] \<and> pf c0 = Some a"
  shows "\<exists>r. mapTickers pf res pairs acc = Inr r"
  using assms
proof (induction pairs arbitrary: acc)
  case Nil
  then show ?case by simp
next
  case (Cons p ps)
  from Cons.prems obtain d key c0 cs a where
    f: "findKrakenSymbolInResult res (pairToKrakenSymbol p) = (d, key, True)"
    "C d = c0 # cs" "c0 \<noteq> []" "pf c0 = Some a" by auto
  have "\<exists>r. mapTickers pf res ps acc' = Inr r" for acc'
    using Cons.IH Cons.prems by simp
  then show ?case using f by simp
qed

lemma GetTickers_decoded:
  assumes "pairs \<noteq> []" "httpClient k (tickerURL k pairs) = Response 200 (Decoded resp)"
    "Error resp = []"
  shows "GetTickers pf k pairs = mapTickers pf (Result resp) pairs []"
  using assms by (simp add: GetTickers_def tickerURL_def Let_def)

lemma GetTickers_Inr_decoded:
  assumes "GetTickers pf k pairs = Inr ltps"
  shows "\<exists>resp. httpClient k (tickerURL k pairs) = Response 200 (Decoded resp) \<and>
           mapTickers pf (Result resp) pairs [] = Inr ltps"
  using assms
  by (auto simp: GetTickers_def tickerURL_def Let_def split: if_splits http_result.splits body.splits)

lemma GetTickers_pairs: "GetTickers pf k pairs = Inr ltps \<Longrightarrow> map PairOf ltps = pairs"
  using GetTickers_Inr_decoded mapTickers_pairs by fastforce

text \<open>
  Claim C2. \<open>findKrakenSymbolInResult\<close> resolves a requested symbol in strict precedence,
  the first match winning: the first of the candidates (the symbol itself, then for a
  symbol that starts with XBT the variants XXBTZ+suffix and XXBT+suffix) that is a key of
  the response; if none is a key and the response has exactly one key, that key whatever
  its name; otherwise nothing, and then \<open>GetTickers\<close> fails with the symbol-not-found
  error \<open>NoDataFound\<close>. So a response with several keys of which none matches fails.
\<close>

theorem C2_symbol_reconciliation:
  "(find (hasKey m) (candidates symbol) = Some key \<longrightarrow> map_of m key = Some d \<longrightarrow>
      findKrakenSymbolInResult m symbol = (d, key, True))
   \<and> (find (hasKey m) (candidates symbol) = None \<longrightarrow> dom (map_of m) = {key} \<longrightarrow>
      map_of m key = Some d \<longrightarrow>
      findKrakenSymbolInResult m symbol = (d, key, True))
   \<and> (find (hasKey m) (candidates symbol) = None \<longrightarrow> card (dom (map_of m)) \<noteq> 1 \<longrightarrow>
      findKrakenSymbolInResult m symbol = (\<lparr>C = []\<rparr>, [], False))
   \<and> candidates (''XBT'' @ suffix) = [''XBT'' @ suffix, ''XXBTZ'' @ suffix, ''XXBT'' @ suffix]
   \<and> (take 3 symbol \<noteq> ''XBT'' \<longrightarrow> candidates symbol = [symbol])
   \<and> (httpClient k (tickerURL k (p # ps)) = Response 200 (Decoded resp) \<longrightarrow>
       Error resp = [] \<longrightarrow>
       find (hasKey (Result resp)) (candidates (pairToKrakenSymbol p)) = None \<longrightarrow>
       card (dom (map_of (Result resp))) \<noteq> 1 \<longrightarrow>
       GetTickers pf k (p # ps) = Inl (NoDataFound (Value p) (pairToKrakenSymbol p)))
   \<and> (httpClient k (tickerURL k pairs) = Response 200 (Decoded resp) \<longrightarrow>
       Error resp = [] \<longrightarrow> q \<in> set pairs \<longrightarrow>
       find (hasKey (Result resp)) (candidates (pairToKrakenSymbol q)) = None \<longrightarrow>
       card (dom (map_of (Result resp))) \<noteq> 1 \<longrightarrow>
       isl (GetTickers pf k pairs))"
proof (intro conjI impI)
  assume "find (hasKey m) (candidates symbol) = Some key" "map_of m key = Some d"
  then show "findKrakenSymbolInResult m symbol = (d, key, True)"
    by (rule findKrakenSymbolInResult_first)
next
  assume "find (hasKey m) (candidates symbol) = None" "dom (map_of m) = {key}"
    "map_of m key = Some d"
  then show "findKrakenSymbolInResult m symbol = (d, key, True)"
    by (rule findKrakenSymbolInResult_single)
next
  assume "find (hasKey m) (candidates symbol) = None" "card (dom (map_of m)) \<noteq> 1"
  then show "findKrakenSymbolInResult m symbol = (\<lparr>C = []\<rparr>, [], False)"
    by (rule findKrakenSymbolInResult_none)
next
  show "candidates (''XBT'' @ suffix) = [''XBT'' @ suffix, ''XXBTZ'' @ suffix, ''XXBT'' @ suffix]"
    by (simp add: candidates_def variantsOf_def)
next
  assume "take 3 symbol \<noteq> ''XBT''"
  then show "candidates symbol = [symbol]" by (simp add: candidates_def variantsOf_def)
next
  assume h: "httpClient k (tickerURL k (p # ps)) = Response 200 (Decoded resp)"
    "Error resp = []"
    and n: "find (hasKey (Result resp)) (candidates (pairToKrakenSymbol p)) = None"
    "card (dom (map_of (Result resp))) \<noteq> 1"
  have "GetTickers pf k (p # ps) = mapTickers pf (Result resp) (p # ps) []"
    using h by (intro GetTickers_decoded) simp_all
  also have "\<dots> = Inl (NoDataFound (Value p) (pairToKrakenSymbol p))"
    using findKrakenSymbolInResult_none[OF n] by (rule mapTickers_unresolved_first)
  finally show "GetTickers pf k (p # ps) = Inl (NoDataFound (Value p) (pairToKrakenSymbol p))" .
next
  assume h: "httpClient k (tickerURL k pairs) = Response 200 (Decoded resp)" "Error resp = []"
    and q: "q \<in> set pairs"
    and n: "find (hasKey (Result resp)) (candidates (pairToKrakenSymbol q)) = None"
    "card (dom (map_of (Result resp))) \<noteq> 1"
  from q have ne: "pairs \<noteq> []" by auto
  have g: "GetTickers pf k pairs = mapTickers pf (Result resp) pairs []"
    using ne h by (rule GetTickers_decoded)
  show "isl (GetTickers pf k pairs)"
  proof (cases "GetTickers pf k pairs")
    case (Inl e)
    then show ?thesis by simp
  next
    case (Inr r)
    with g have "mapTickers pf (Result resp) pairs [] = Inr r" by simp
    from mapTickers_Inr_resolved[OF this q] findKrakenSymbolInResult_none[OF n]
    show ?thesis by simp
  qed
qed

theorem C2_symbol_reconciliation_witness:
  "find (hasKey [(''XXBTUSD'', \<lparr>C = [''1'']\<rparr>), (''XXBTZUSD'', \<lparr>C = [''2'']\<rparr>)]) (candidates ''XBTUSD'')
     = Some ''XXBTZUSD''
   \<and> findKrakenSymbolInResult [(''XXBTUSD'', \<lparr>C = [''1'']\<rparr>), (''XXBTZUSD'', \<lparr>C = [''2'']\<rparr>)] ''XBTUSD''
     = (\<lparr>C = [''2'']\<rparr>, ''XXBTZUSD'', True)
   \<and> find (hasKey [(''UNKNOWN'', \<lparr>C = [''50000.12'']\<rparr>)]) (candidates ''XBTUSD'') = None
   \<and> findKrakenSymbolInResult [(''UNKNOWN'', \<lparr>C = [''50000.12'']\<rparr>)] ''XBTUSD''
     = (\<lparr>C = [''50000.12'']\<rparr>, ''UNKNOWN'', True)
   \<and> card (dom (map_of [(''OTHER1'', \<lparr>C = [''50000.12'']\<rparr>), (''OTHER2'', \<lparr>C = [''60000.12'']\<rparr>)])) = 2
   \<and> findKrakenSymbolInResult
        [(''OTHER1'', \<lparr>C = [''50000.12'']\<rparr>), (''OTHER2'', \<lparr>C = [''60000.12'']\<rparr>)] ''XBTUSD''
     = (\<lparr>C = []\<rparr>, [], False)
   \<and> GetTickers parseDecimal
        (NewKrakenClient
          (\<lambda>url. Response 200 (Decoded \<lparr>Error = [],
             Result = [(''OTHER1'', \<lparr>C = [''100.0'']\<rparr>), (''OTHER2'', \<lparr>C = [''200.0'']\<rparr>)]\<rparr>)) [])
        [\<lparr>Value = ''BTC/USD''\<rparr>]
     = Inl (NoDataFound ''BTC/USD'' ''XBTUSD'')"
proof -
  let ?m1 = "[(''XXBTUSD'', \<lparr>C = [''1'']\<rparr>), (''XXBTZUSD'', \<lparr>C = [''2'']\<rparr>)]"
  let ?m2 = "[(''UNKNOWN'', \<lparr>C = [''50000.12'']\<rparr>)]"
  let ?m3 = "[(''OTHER1'', \<lparr>C = [''50000.12'']\<rparr>), (''OTHER2'', \<lparr>C = [''60000.12'']\<rparr>)]"
  let ?r4 = "\<lparr>Error = [], Result = [(''OTHER1'', \<lparr>C = [''100.0'']\<rparr>), (''OTHER2'', \<lparr>C = [''200.0'']\<rparr>)]\<rparr>"
  let ?k = "NewKrakenClient (\<lambda>url. Response 200 (Decoded ?r4)) []"
  have a1: "find (hasKey ?m1) (candidates ''XBTUSD'') = Some ''XXBTZUSD''"
    by (simp add: hasKey_def candidates_def variantsOf_def)
  have a2: "map_of ?m1 ''XXBTZUSD'' = Some \<lparr>C = [''2'']\<rparr>" by simp
  have b1: "find (hasKey ?m2) (candidates ''XBTUSD'') = None"
    by (simp add: hasKey_def candidates_def variantsOf_def)
  have b2: "dom (map_of ?m2) = {''UNKNOWN''}" by simp
  have b3: "map_of ?m2 ''UNKNOWN'' = Some \<lparr>C = [''50000.12'']\<rparr>" by simp
  have c1: "find (hasKey ?m3) (candidates ''XBTUSD'') = None"
    by (simp add: hasKey_def candidates_def variantsOf_def)
  have c2: "card (dom (map_of ?m3)) = 2" by (simp add: dom_map_of_conv_image_fst)
  have d1: "httpClient ?k (tickerURL ?k [\<lparr>Value = ''BTC/USD''\<rparr>]) = Response 200 (Decoded ?r4)"
    by (simp add: NewKrakenClient_def)
  have d2: "find (hasKey (Result ?r4)) (candidates (pairToKrakenSymbol \<lparr>Value = ''BTC/USD''\<rparr>)) = None"
    by (simp add: hasKey_def candidates_def variantsOf_def pairToKrakenSymbol_def BTCUSD_def)
  have d3: "card (dom (map_of (Result ?r4))) = 2" by (simp add: dom_map_of_conv_image_fst)
  note t = C2_symbol_reconciliation
  have e1: "findKrakenSymbolInResult ?m1 ''XBTUSD'' = (\<lparr>C = [''2'']\<rparr>, ''XXBTZUSD'', True)"
    by (rule t[THEN conjunct1, rule_format, OF a1 a2])
  have e2: "findKrakenSymbolInResult ?m2 ''XBTUSD'' = (\<lparr>C = [''50000.12'']\<rparr>, ''UNKNOWN'', True)"
    by (rule t[THEN conjunct2, THEN conjunct1, rule_format, OF b1 b2 b3])
  have c2': "card (dom (map_of ?m3)) \<noteq> 1" using c2 by simp
  have e3: "findKrakenSymbolInResult ?m3 ''XBTUSD'' = (\<lparr>C = []\<rparr>, [], False)"
    by (rule t[THEN conjunct2, THEN conjunct2, THEN conjunct1, rule_format, OF c1 c2'])
  have d3': "card (dom (map_of (Result ?r4))) \<noteq> 1" using d3 by simp
  have d0: "Error ?r4 = []" by simp
  have e4: "GetTickers parseDecimal ?k [\<lparr>Value = ''BTC/USD''\<rparr>]
      = Inl (NoDataFound (Value \<lparr>Value = ''BTC/USD''\<rparr>) (pairToKrakenSymbol \<lparr>Value = ''BTC/USD''\<rparr>))"
    by (rule t[THEN conjunct2, THEN conjunct2, THEN conjunct2, THEN conjunct2, THEN conjunct2,
          THEN conjunct1, rule_format, OF d1 d0 d2 d3'])
  have e4': "GetTickers parseDecimal ?k [\<lparr>Value = ''BTC/USD''\<rparr>] = Inl (NoDataFound ''BTC/USD'' ''XBTUSD'')"
    using e4 by (simp add: pairToKrakenSymbol_def BTCUSD_def)
  show ?thesis using a1 e1 b1 e2 c2 e3 e4' by blast
qed

section \<open>The Kraken client: prices\<close>

text \<open>
  Claim C9, as it stands, fails: a price string with a minus sign is parsed and returned.
\<close>

theorem C9_negative_amount_counterexample:
  "GetTickers parseDecimal
     (NewKrakenClient
        (\<lambda>url. Response 200 (Decoded \<lparr>Error = [], Result = [(''XXBTZUSD'', \<lparr>C = [''-1'']\<rparr>)]\<rparr>)) [])
     [\<lparr>Value = ''BTC/USD''\<rparr>]
   = Inr [\<lparr>PairOf = \<lparr>Value = ''BTC/USD''\<rparr>, Amount = - 1\<rparr>]
   \<and> \<not> (0 \<le> Amount \<lparr>PairOf = \<lparr>Value = ''BTC/USD''\<rparr>, Amount = - 1 :: real\<rparr>)"
  by (simp add: GetTickers_def NewKrakenClient_def pairToKrakenSymbol_def BTCUSD_def BTCCHF_def
      BTCEUR_def findKrakenSymbolInResult_def parseDecimal_def parseUnsigned_def digitVal_def
      Let_def)

text \<open>
  Claim C9, amended. Every price that \<open>GetTickers\<close> returns carries as its amount the
  number that \<^verbatim>\<open>strconv.ParseFloat\<close> gave for the first element of the \<^verbatim>\<open>c\<close> list of a
  record of the decoded response. No check of the sign is made.
\<close>

theorem C9_amount_is_parsed_price:
  assumes "GetTickers pf k pairs = Inr ltps" and "l \<in> set ltps"
  shows "\<exists>resp key d c0 cs.
           httpClient k (tickerURL k pairs) = Response 200 (Decoded resp) \<and>
           map_of (Result resp) key = Some d \<and> C d = c0 # cs \<and> pf c0 = Some (Amount l)"
proof -
  from GetTickers_Inr_decoded[OF assms(1)] obtain resp where
    r: "httpClient k (tickerURL k pairs) = Response 200 (Decoded resp)"
    and m: "mapTickers pf (Result resp) pairs [] = Inr ltps" by blast
  from mapTickers_amounts[OF m assms(2)] obtain key d c0 cs where
    "map_of (Result resp) key = Some d" "C d = c0 # cs" "pf c0 = Some (Amount l)" by auto
  with r show ?thesis by blast
qed

text \<open>The amended claim on the specification's example price.\<close>

theorem C9_amount_is_parsed_price_witness:
  "GetTickers parseDecimal
     (NewKrakenClient
        (\<lambda>url. Response 200 (Decoded \<lparr>Error = [], Result = [(''XXBTZUSD'', \<lparr>C = [''52000.12'']\<rparr>)]\<rparr>)) [])
     [\<lparr>Value = ''BTC/USD''\<rparr>]
   = Inr [\<lparr>PairOf = \<lparr>Value = ''BTC/USD''\<rparr>, Amount = 5200012 / 100\<rparr>]
   \<and> (\<exists>resp key d c0 cs.
         httpClient (NewKrakenClient
            (\<lambda>url. Response 200 (Decoded \<lparr>Error = [], Result = [(''XXBTZUSD'', \<lparr>C = [''52000.12'']\<rparr>)]\<rparr>)) [])
           (tickerURL (NewKrakenClient
            (\<lambda>url. Response 200 (Decoded \<lparr>Error = [], Result = [(''XXBTZUSD'', \<lparr>C = [''52000.12'']\<rparr>)]\<rparr>)) [])
             [\<lparr>Value = ''BTC/USD''\<rparr>])
           = Response 200 (Decoded resp) \<and>
         map_of (Result resp) key = Some d \<and> C d = c0 # cs \<and>
         parseDecimal c0 = Some (5200012 / 100))"
proof -
  let ?k = "NewKrakenClient
        (\<lambda>url. Response 200 (Decoded \<lparr>Error = [], Result = [(''XXBTZUSD'', \<lparr>C = [''52000.12'']\<rparr>)]\<rparr>)) []"
  let ?l = "\<lparr>PairOf = \<lparr>Value = ''BTC/USD''\<rparr>, Amount = 5200012 / 100 :: real\<rparr>"
  have h1: "GetTickers parseDecimal ?k [\<lparr>Value = ''BTC/USD''\<rparr>] = Inr [?l]"
    by (simp add: GetTickers_def NewKrakenClient_def pairToKrakenSymbol_def BTCUSD_def BTCCHF_def
      BTCEUR_def findKrakenSymbolInResult_def parseDecimal_def parseUnsigned_def digitVal_def
      Let_def)
  have h2: "?l \<in> set [?l]" by simp
  show ?thesis using h1 C9_amount_is_parsed_price[OF h1 h2] by simp
qed

text \<open>
  Claim C10. When the decoded response has exactly one key, every requested pair resolves
  to that key's record, whatever the key is called: \<open>GetTickers\<close> never fails with the
  symbol-not-found error, and when the record carries a price that parses, the call
  succeeds and returns that one price for every requested pair. This holds in particular
  for two or more distinct pairs and a key that matches none of their symbols or
  variants.
\<close>

theorem C10_single_key_answers_every_pair:
  assumes "pairs \<noteq> []"
    and "httpClient k (tickerURL k pairs) = Response 200 (Decoded resp)"
    and "Error resp = []"
    and "dom (map_of (Result resp)) = {key}"
    and "map_of (Result resp) key = Some d"
  shows "(\<forall>p. findKrakenSymbolInResult (Result resp) (pairToKrakenSymbol p) = (d, key, True))
       \<and> (\<forall>v s. GetTickers pf k pairs \<noteq> Inl (NoDataFound v s))
       \<and> (\<forall>c0 cs a. C d = c0 # cs \<longrightarrow> c0 \<noteq> [] \<longrightarrow> pf c0 = Some a \<longrightarrow>
            GetTickers pf k pairs = Inr (map (\<lambda>p. \<lparr>PairOf = p, Amount = a\<rparr>) pairs))"
proof -
  have f: "findKrakenSymbolInResult (Result resp) (pairToKrakenSymbol p) = (d, key, True)" for p
    using assms(4,5) by (rule single_key_resolves)
  have g: "GetTickers pf k pairs = mapTickers pf (Result resp) pairs []"
    using assms(1-3) by (rule GetTickers_decoded)
  have n: "GetTickers pf k pairs \<noteq> Inl (NoDataFound v s)" for v s
    unfolding g by (rule mapTickers_never_NoDataFound) (rule f)
  have s: "GetTickers pf k pairs = Inr (map (\<lambda>p. \<lparr>PairOf = p, Amount = a\<rparr>) pairs)"
    if "C d = c0 # cs" "c0 \<noteq> []" "pf c0 = Some a" for c0 cs a
    unfolding g using mapTickers_same[of pairs "Result resp" d key c0 cs pf a "[]"] f that by simp
  show ?thesis using f n s by blast
qed

text \<open>Two pairs, one key that matches neither: both get the price of that key.\<close>

theorem C10_single_key_answers_every_pair_witness:
  "GetTickers parseDecimal
     (NewKrakenClient
        (\<lambda>url. Response 200 (Decoded \<lparr>Error = [], Result = [(''UNKNOWN'', \<lparr>C = [''50000.12'']\<rparr>)]\<rparr>)) [])
     [\<lparr>Value = ''BTC/USD''\<rparr>, \<lparr>Value = ''BTC/EUR''\<rparr>]
   = Inr [\<lparr>PairOf = \<lparr>Value = ''BTC/USD''\<rparr>, Amount = 5000012 / 100\<rparr>,
          \<lparr>PairOf = \<lparr>Value = ''BTC/EUR''\<rparr>, Amount = 5000012 / 100\<rparr>]
   \<and> find (hasKey [(''UNKNOWN'', \<lparr>C = [''50000.12'']\<rparr>)])
         (candidates (pairToKrakenSymbol \<lparr>Value = ''BTC/USD''\<rparr>)) = None
   \<and> find (hasKey [(''UNKNOWN'', \<lparr>C = [''50000.12'']\<rparr>)])
         (candidates (pairToKrakenSymbol \<lparr>Value = ''BTC/EUR''\<rparr>)) = None"
proof -
  let ?resp = "\<lparr>Error = [], Result = [(''UNKNOWN'', \<lparr>C = [''50000.12'']\<rparr>)]\<rparr>"
  let ?k = "NewKrakenClient (\<lambda>url. Response 200 (Decoded ?resp)) []"
  let ?pairs = "[\<lparr>Value = ''BTC/USD''\<rparr>, \<lparr>Value = ''BTC/EUR''\<rparr>]"
  have h1: "?pairs \<noteq> []" by simp
  have h2: "httpClient ?k (tickerURL ?k ?pairs) = Response 200 (Decoded ?resp)"
    by (simp add: NewKrakenClient_def)
  have h3: "Error ?resp = []" by simp
  have h4: "dom (map_of (Result ?resp)) = {''UNKNOWN''}" by simp
  have h5: "map_of (Result ?resp) ''UNKNOWN'' = Some \<lparr>C = [''50000.12'']\<rparr>" by simp
  have p: "parseDecimal ''50000.12'' = Some (5000012 / 100)"
    by (simp add: parseDecimal_def parseUnsigned_def digitVal_def)
  note t = C10_single_key_answers_every_pair[OF h1 h2 h3 h4 h5, of parseDecimal]
  have "GetTickers parseDecimal ?k ?pairs
      = Inr (map (\<lambda>p. \<lparr>PairOf = p, Amount = 5000012 / 100\<rparr>) ?pairs)"
    using t[THEN conjunct2, THEN conjunct2, rule_format, of "''50000.12''" "[]"] p by simp
  moreover have "find (hasKey [(''UNKNOWN'', \<lparr>C = [''50000.12'']\<rparr>)])
         (candidates (pairToKrakenSymbol \<lparr>Value = ''BTC/USD''\<rparr>)) = None"
    by (simp add: hasKey_def candidates_def variantsOf_def pairToKrakenSymbol_def BTCUSD_def
        BTCCHF_def BTCEUR_def)
  moreover have "find (hasKey [(''UNKNOWN'', \<lparr>C = [''50000.12'']\<rparr>)])
         (candidates (pairToKrakenSymbol \<lparr>Value = ''BTC/EUR''\<rparr>)) = None"
    by (simp add: hasKey_def candidates_def variantsOf_def pairToKrakenSymbol_def BTCUSD_def
        BTCCHF_def BTCEUR_def)
  ultimately show ?thesis by simp
qed

section \<open>The cache\<close>

text \<open>
  Claim C5. The cache lookup reports not found when the pair has no entry or when the
  entry is older than 60 seconds at the time of the lookup, and otherwise returns the
  stored entry with found = true. The lookup leaves the store as it is (an expired
  entry is not evicted), and a store for the pair replaces whatever entry was there,
  expired or not, by the given price with the time of the store.
\<close>

theorem C5_cache_lookup:
  "fst (InMemoryCache_GetLTP pair w) =
     (case store w (Value pair) of
        None \<Rightarrow> (None, False)
      | Some cached \<Rightarrow>
          if clock w (ticks w) - Timestamp cached > 60 * 1000000000 then (None, False)
          else (Some cached, True))
   \<and> store (snd (InMemoryCache_GetLTP pair w)) = store w
   \<and> store (InMemoryCache_SetLTP pair ltp w) =
       (store w)(Value pair \<mapsto> \<lparr>LTP = ltp, Timestamp = clock w (ticks w)\<rparr>)"
  by (simp add: InMemoryCache_GetLTP_def InMemoryCache_SetLTP_def IsExpired_def Since_def
      Now_def NewCachedLTP_def Minute_def Let_def split: option.splits)

section \<open>Parsing a specification\<close>

lemma Pair_eq_iff: "(p :: Pair) = q \<longleftrightarrow> Value p = Value q"
  by auto

lemma NewPair_Inr: "NewPair lib t = Inr pair \<Longrightarrow>
    pair = \<lparr>Value = ToUpper lib (TrimSpace lib t)\<rparr> \<and> validPairs (Value pair)"
  by (auto simp: NewPair_def Let_def split: if_splits)

lemma NewPair_Inl: "NewPair lib t = Inl e \<Longrightarrow>
    e = InvalidPair (ToUpper lib (TrimSpace lib t)) \<and> \<not> validPairs (ToUpper lib (TrimSpace lib t))"
  by (auto simp: NewPair_def Let_def split: if_splits)

lemma parseTokens_invalid:
  assumes "tok \<in> set toks" "\<not> validPairs (ToUpper lib (TrimSpace lib tok))"
  shows "\<exists>bad \<in> set toks. \<not> validPairs (ToUpper lib (TrimSpace lib bad)) \<and>
           parseTokens lib toks result seen = Inl (InvalidPair (ToUpper lib (TrimSpace lib bad)))"
  using assms
proof (induction toks arbitrary: result seen)
  case Nil
  then show ?case by simp
next
  case (Cons t ts)
  show ?case
  proof (cases "NewPair lib t")
    case (Inl e)
    then show ?thesis using NewPair_Inl[OF Inl] by auto
  next
    case (Inr pair)
    then have "validPairs (ToUpper lib (TrimSpace lib t))" using NewPair_Inr[OF Inr] by auto
    then have "tok \<in> set ts" using Cons.prems by auto
    from Cons.IH[OF this Cons.prems(2)] show ?thesis using Inr by auto
  qed
qed

lemma parseTokens_Inr:
  assumes "parseTokens lib toks result seen = Inr pairs"
    and "distinct result" "\<forall>p. seen (Value p) \<longleftrightarrow> p \<in> set result"
    "\<forall>p \<in> set result. validPairs (Value p)"
  shows "distinct pairs \<and> (\<forall>p \<in> set pairs. validPairs (Value p)) \<and> length result \<le> length pairs
     \<and> (toks \<noteq> [] \<longrightarrow> pairs \<noteq> [])
     \<and> set pairs = set result \<union> (\<lambda>t. \<lparr>Value = ToUpper lib (TrimSpace lib t)\<rparr>) ` set toks"
  using assms
proof (induction toks arbitrary: result seen)
  case Nil
  then show ?case by simp
next
  case (Cons t ts)
  from Cons.prems(1) obtain pair where np: "NewPair lib t = Inr pair"
    by (cases "NewPair lib t") auto
  note v = NewPair_Inr[OF np]
  show ?case
  proof (cases "seen (Value pair)")
    case True
    then have rest: "parseTokens lib ts result seen = Inr pairs" using Cons.prems(1) np by simp
    from True Cons.prems(3) have m: "pair \<in> set result" by blast
    then have "result \<noteq> []" by auto
    moreover have "\<lparr>Value = ToUpper lib (TrimSpace lib t)\<rparr> \<in> set result" using m v by simp
    ultimately show ?thesis using Cons.IH[OF rest Cons.prems(2,3,4)] by auto
  next
    case False
    then have rest: "parseTokens lib ts (result @ [pair]) (seen(Value pair := True)) = Inr pairs"
      using Cons.prems(1) np by simp
    from False Cons.prems(3) have ni: "pair \<notin> set result" by blast
    have d: "distinct (result @ [pair])" using Cons.prems(2) ni by simp
    have s: "\<forall>p. (seen(Value pair := True)) (Value p) \<longleftrightarrow> p \<in> set (result @ [pair])"
      using Cons.prems(3) by (auto simp: Pair_eq_iff)
    have va: "\<forall>p \<in> set (result @ [pair]). validPairs (Value p)" using Cons.prems(4) v by auto
    have "pair = \<lparr>Value = ToUpper lib (TrimSpace lib t)\<rparr>" using v by simp
    with Cons.IH[OF rest d s va] show ?thesis by auto
  qed
qed

lemma ParsePairs_Inr:
  assumes "ParsePairs lib pairsStr = Inr pairs"
  shows "distinct pairs \<and> pairs \<noteq> [] \<and> (\<forall>p \<in> set pairs. validPairs (Value p))"
proof (cases "pairsStr = []")
  case True
  then have "pairs = [\<lparr>Value = BTCUSD\<rparr>, \<lparr>Value = BTCCHF\<rparr>, \<lparr>Value = BTCEUR\<rparr>]"
    using assms by (simp add: ParsePairs_def)
  then show ?thesis by (simp add: validPairs_def BTCUSD_def BTCCHF_def BTCEUR_def)
next
  case False
  then have "parseTokens lib (Split pairsStr CHR '','') [] (\<lambda>_. False) = Inr pairs"
    using assms by (auto simp: ParsePairs_def split: sum.splits if_splits)
  from parseTokens_Inr[OF this] have "distinct pairs" "\<forall>p \<in> set pairs. validPairs (Value p)"
    and "Split pairsStr CHR '','' \<noteq> [] \<longrightarrow> pairs \<noteq> []" by simp_all
  moreover have "Split pairsStr CHR '','' \<noteq> []"
    by (induction pairsStr) (auto split: list.splits)
  ultimately show ?thesis by simp
qed

lemma ParsePairs_tokens:
  assumes "pairsStr \<noteq> []" "ParsePairs lib pairsStr = Inr pairs"
  shows "set pairs = (\<lambda>t. \<lparr>Value = ToUpper lib (TrimSpace lib t)\<rparr>) ` set (Split pairsStr CHR '','')"
proof -
  have "parseTokens lib (Split pairsStr CHR '','') [] (\<lambda>_. False) = Inr pairs"
    using assms by (auto simp: ParsePairs_def split: sum.splits if_splits)
  from parseTokens_Inr[OF this] show ?thesis by simp
qed

lemma ParsePairs_invalid:
  assumes "pairsStr \<noteq> []" "tok \<in> set (Split pairsStr CHR '','')"
    "\<not> validPairs (ToUpper lib (TrimSpace lib tok))"
  shows "\<exists>bad \<in> set (Split pairsStr CHR '','').
           \<not> validPairs (ToUpper lib (TrimSpace lib bad)) \<and>
           ParsePairs lib pairsStr = Inl (InvalidPair (ToUpper lib (TrimSpace lib bad)))"
  using parseTokens_invalid[OF assms(2,3), of "[]" "\<lambda>_. False"] assms(1)
  by (auto simp: ParsePairs_def)

lemma parseTokens_valid:
  assumes "\<forall>tok \<in> set toks. validPairs (ToUpper lib (TrimSpace lib tok))"
  shows "\<exists>pairs. parseTokens lib toks result seen = Inr pairs"
  using assms
proof (induction toks arbitrary: result seen)
  case Nil
  then show ?case by simp
next
  case (Cons t ts)
  then have "NewPair lib t = Inr \<lparr>Value = ToUpper lib (TrimSpace lib t)\<rparr>"
    by (simp add: NewPair_def Let_def)
  moreover have "\<exists>pairs. parseTokens lib ts r s = Inr pairs" for r s
    using Cons.IH Cons.prems by simp
  ultimately show ?case by simp
qed

lemma Split_nonempty: "Split s sep \<noteq> []"
  by (induction s) (auto split: list.splits)

lemma ParsePairs_valid:
  assumes "pairsStr \<noteq> []"
    and "\<forall>tok \<in> set (Split pairsStr CHR '',''). validPairs (ToUpper lib (TrimSpace lib tok))"
  shows "\<exists>pairs. ParsePairs lib pairsStr = Inr pairs"
proof -
  from parseTokens_valid[OF assms(2)] obtain pairs where
    p: "parseTokens lib (Split pairsStr CHR '','') [] (\<lambda>_. False) = Inr pairs" by blast
  from parseTokens_Inr[OF p] have "Split pairsStr CHR '','' \<noteq> [] \<longrightarrow> pairs \<noteq> []" by simp
  then have "pairs \<noteq> []" using Split_nonempty by blast
  then show ?thesis using assms(1) p by (simp add: ParsePairs_def)
qed

section \<open>The service: cache, fetch and merge\<close>

lemma GetLTP_store [simp]: "store (snd (InMemoryCache_GetLTP pair w)) = store w"
  by (simp add: InMemoryCache_GetLTP_def IsExpired_def Since_def Now_def Let_def
      split: option.splits)

lemma GetLTP_trace [simp]:
  "trace (snd (InMemoryCache_GetLTP pair w)) = trace w @ [RepoGetLTP pair]"
  by (simp add: InMemoryCache_GetLTP_def IsExpired_def Since_def Now_def Let_def
      split: option.splits)

lemma GetLTP_clock [simp]: "clock (snd (InMemoryCache_GetLTP pair w)) = clock w"
  by (simp add: InMemoryCache_GetLTP_def IsExpired_def Since_def Now_def Let_def
      split: option.splits)

lemma GetLTP_result:
  assumes "fst (InMemoryCache_GetLTP pair w) = (cached, found)"
  shows "(found \<longrightarrow> (\<exists>c. cached = Some c \<and> store w (Value pair) = Some c)) \<and>
     (\<not> found \<longrightarrow> cached = None)"
proof (cases "store w (Value pair)")
  case None
  then show ?thesis using assms by (auto simp: InMemoryCache_GetLTP_def Let_def)
next
  case (Some c)
  then show ?thesis using assms
    by (auto simp: InMemoryCache_GetLTP_def IsExpired_def Since_def Now_def Let_def
        split: if_splits)
qed

lemma SetLTP_store [simp]:
  "store (InMemoryCache_SetLTP pair ltp w) =
     (store w)(Value pair \<mapsto> \<lparr>LTP = ltp, Timestamp = clock w (ticks w)\<rparr>)"
  by (simp add: InMemoryCache_SetLTP_def NewCachedLTP_def Now_def Let_def)

lemma SetLTP_trace [simp]:
  "trace (InMemoryCache_SetLTP pair ltp w) = trace w @ [RepoSetLTP pair ltp]"
  by (simp add: InMemoryCache_SetLTP_def NewCachedLTP_def Now_def Let_def)

lemma afterLookups_store [simp]: "store (afterLookups pairs w) = store w"
  by (induction pairs arbitrary: w) auto

lemma afterLookups_trace [simp]:
  "trace (afterLookups pairs w) = trace w @ map RepoGetLTP pairs"
  by (induction pairs arbitrary: w) auto

lemma checkCache_eq:
  "checkCache pairs result toFetch w =
     ((result @ cacheHits pairs w, toFetch @ cacheMisses pairs w), afterLookups pairs w)"
proof (induction pairs arbitrary: result toFetch w)
  case Nil
  then show ?case by simp
next
  case (Cons p ps)
  obtain cached found w' where g: "InMemoryCache_GetLTP p w = ((cached, found), w')"
    by (cases "InMemoryCache_GetLTP p w") auto
  then have "fst (InMemoryCache_GetLTP p w) = (cached, found)" by simp
  from GetLTP_result[OF this] show ?case using g Cons.IH
    by (cases cached; cases found) auto
qed

lemma cacheFetched_eq:
  "cacheFetched ltps result w =
     (result @ ltps, foldl (\<lambda>w ltp. InMemoryCache_SetLTP (PairOf ltp) ltp w) w ltps)"
  by (induction ltps arbitrary: result w) auto

lemma storeAll_trace:
  "trace (foldl (\<lambda>w ltp. InMemoryCache_SetLTP (PairOf ltp) ltp w) w ltps) =
     trace w @ map (\<lambda>ltp. RepoSetLTP (PairOf ltp) ltp) ltps"
  by (induction ltps arbitrary: w) auto

lemma storeAll_keyed:
  "storeKeyed w \<Longrightarrow> storeKeyed (foldl (\<lambda>w ltp. InMemoryCache_SetLTP (PairOf ltp) ltp w) w ltps)"
proof (induction ltps arbitrary: w)
  case Nil
  then show ?case by simp
next
  case (Cons l ls)
  have "storeKeyed (InMemoryCache_SetLTP (PairOf l) l w)"
    using Cons.prems by (auto simp: storeKeyed_def)
  from Cons.IH[OF this] show ?case by simp
qed

lemma fetchCalls_append [simp]: "fetchCalls (xs @ ys) = fetchCalls xs @ fetchCalls ys"
  by (induction xs rule: fetchCalls.induct) auto

lemma cacheWrites_append [simp]: "cacheWrites (xs @ ys) = cacheWrites xs @ cacheWrites ys"
  by (induction xs rule: cacheWrites.induct) auto

lemma cacheReads_append [simp]: "cacheReads (xs @ ys) = cacheReads xs @ cacheReads ys"
  by (induction xs rule: cacheReads.induct) auto

lemma fetchCalls_gets [simp]: "fetchCalls (map RepoGetLTP pairs) = []"
  by (induction pairs) auto

lemma fetchCalls_sets [simp]: "fetchCalls (map (\<lambda>ltp. RepoSetLTP (PairOf ltp) ltp) ltps) = []"
  by (induction ltps) auto

lemma cacheWrites_gets [simp]: "cacheWrites (map RepoGetLTP pairs) = []"
  by (induction pairs) auto

lemma cacheWrites_sets [simp]:
  "cacheWrites (map (\<lambda>ltp. RepoSetLTP (PairOf ltp) ltp) ltps) = map (\<lambda>ltp. (PairOf ltp, ltp)) ltps"
  by (induction ltps) auto

lemma cacheReads_gets [simp]: "cacheReads (map RepoGetLTP pairs) = pairs"
  by (induction pairs) auto

lemma cacheReads_sets [simp]: "cacheReads (map (\<lambda>ltp. RepoSetLTP (PairOf ltp) ltp) ltps) = []"
  by (induction ltps) auto

text \<open>What \<open>GetLTPs\<close> does once the pairs are parsed, in one equation.\<close>

lemma GetLTPs_parsed:
  assumes "ParsePairs lib pairsStr = Inr pairs"
  shows "GetLTPs lib ext pairsStr w =
     (if cacheMisses pairs w = [] then (Inr (sortByPair (cacheHits pairs w)), afterLookups pairs w)
      else
        (case ext (cacheMisses pairs w) of
           Inl err \<Rightarrow>
             (Inl (FetchFailed err),
              (afterLookups pairs w)\<lparr>trace := trace w @ map RepoGetLTP pairs @
                 [ExternalGetTickers (cacheMisses pairs w)]\<rparr>)
         | Inr ltps \<Rightarrow>
             (Inr (sortByPair (cacheHits pairs w @ ltps)),
              foldl (\<lambda>w ltp. InMemoryCache_SetLTP (PairOf ltp) ltp w)
                ((afterLookups pairs w)\<lparr>trace := trace w @ map RepoGetLTP pairs @
                   [ExternalGetTickers (cacheMisses pairs w)]\<rparr>) ltps)))"
  using assms
  by (simp add: GetLTPs_def checkCache_eq cacheFetched_eq external_GetTickers_def
      split: sum.splits)

lemma GetLTPs_invalid:
  assumes "ParsePairs lib pairsStr = Inl err"
  shows "GetLTPs lib ext pairsStr w = (Inl (InvalidPairs err), w)"
  using assms by (simp add: GetLTPs_def)

text \<open>The log only grows, and by what.\<close>

lemma GetLTPs_trace:
  "trace (snd (GetLTPs lib ext pairsStr w)) = trace w @ newEvents w (snd (GetLTPs lib ext pairsStr w))"
proof (cases "ParsePairs lib pairsStr")
  case (Inl err)
  then show ?thesis by (simp add: GetLTPs_invalid newEvents_def)
next
  case (Inr pairs)
  show ?thesis
    by (simp add: GetLTPs_parsed[OF Inr] newEvents_def storeAll_trace split: sum.splits)
qed

lemma GetLTPs_events:
  assumes "ParsePairs lib pairsStr = Inr pairs"
  shows "newEvents w (snd (GetLTPs lib ext pairsStr w)) =
     map RepoGetLTP pairs @
     (if cacheMisses pairs w = [] then []
      else ExternalGetTickers (cacheMisses pairs w) #
        (case ext (cacheMisses pairs w) of
           Inl err \<Rightarrow> []
         | Inr ltps \<Rightarrow> map (\<lambda>ltp. RepoSetLTP (PairOf ltp) ltp) ltps))"
  by (simp add: GetLTPs_parsed[OF assms] newEvents_def storeAll_trace split: sum.splits)

lemma storeKeyed_GetLTP [simp]: "storeKeyed (snd (InMemoryCache_GetLTP pair w)) = storeKeyed w"
  by (simp add: storeKeyed_def)

lemma storeKeyed_new: "storeKeyed (NewInMemoryCache clk)"
  by (simp add: storeKeyed_def NewInMemoryCache_def)

lemma cacheMisses_subset: "set (cacheMisses pairs w) \<subseteq> set pairs"
proof (induction pairs arbitrary: w)
  case Nil
  then show ?case by simp
next
  case (Cons p ps)
  then show ?case by (auto split: prod.splits if_splits)
qed

lemma hits_misses_mset:
  "storeKeyed w \<Longrightarrow>
   mset (map PairOf (cacheHits pairs w)) + mset (cacheMisses pairs w) = mset pairs"
proof (induction pairs arbitrary: w)
  case Nil
  then show ?case by simp
next
  case (Cons p ps)
  obtain cached found w' where g: "InMemoryCache_GetLTP p w = ((cached, found), w')"
    by (cases "InMemoryCache_GetLTP p w") auto
  then have f: "fst (InMemoryCache_GetLTP p w) = (cached, found)"
    and w': "w' = snd (InMemoryCache_GetLTP p w)" by simp_all
  have k: "storeKeyed w'" using Cons.prems w' by simp
  note ih = Cons.IH[OF k]
  show ?case
  proof (cases found)
    case True
    with GetLTP_result[OF f] obtain c where c: "cached = Some c" "store w (Value p) = Some c"
      by auto
    then have "Value (PairOf (LTP c)) = Value p" using Cons.prems by (simp add: storeKeyed_def)
    then have "PairOf (LTP c) = p" by (simp add: Pair_eq_iff)
    then show ?thesis using g c True ih by simp
  next
    case False
    with GetLTP_result[OF f] have "cached = None" by simp
    then show ?thesis using g False ih by simp
  qed
qed

lemma all_hits_cached:
  "cacheMisses pairs w = [] \<Longrightarrow>
   cacheHits pairs w = cachedQuotes w pairs \<and> length (cachedQuotes w pairs) = length pairs"
proof (induction pairs arbitrary: w)
  case Nil
  then show ?case by simp
next
  case (Cons p ps)
  obtain cached found w' where g: "InMemoryCache_GetLTP p w = ((cached, found), w')"
    by (cases "InMemoryCache_GetLTP p w") auto
  then have f: "fst (InMemoryCache_GetLTP p w) = (cached, found)"
    and w': "w' = snd (InMemoryCache_GetLTP p w)" by simp_all
  from Cons.prems g have found: found and rest: "cacheMisses ps w' = []"
    by (auto split: if_splits)
  with GetLTP_result[OF f] obtain c where c: "cached = Some c" "store w (Value p) = Some c"
    by auto
  have s: "store w' = store w" using w' by simp
  have q: "cachedQuotes w' ps = cachedQuotes w ps" using s by (induction ps) auto
  from Cons.IH[OF rest] show ?case using g c found q by simp
qed

lemma mset_sortByPair [simp]: "mset (sortByPair xs) = mset xs"
  by (simp add: sortByPair_def)

lemma sorted_sortByPair: "sorted (map (\<lambda>ltp. Value (PairOf ltp)) (sortByPair xs))"
  by (simp add: sortByPair_def)

lemma GetLTPs_keyed:
  assumes "storeKeyed w"
  shows "storeKeyed (snd (GetLTPs lib ext pairsStr w))"
proof (cases "ParsePairs lib pairsStr")
  case (Inl err)
  then show ?thesis using assms by (simp add: GetLTPs_invalid)
next
  case (Inr pairs)
  have a: "storeKeyed (afterLookups pairs w)" using assms by (simp add: storeKeyed_def)
  have b: "storeKeyed ((afterLookups pairs w)\<lparr>trace := t\<rparr>)" for t
    using assms by (simp add: storeKeyed_def)
  show ?thesis
    using a b storeAll_keyed[OF b] by (simp add: GetLTPs_parsed[OF Inr] split: sum.splits)
qed

lemma GetLTPs_success:
  assumes "ParsePairs lib pairsStr = Inr pairs" and "storeKeyed w"
    and "cacheMisses pairs w \<noteq> [] \<longrightarrow>
           (\<exists>ltps. ext (cacheMisses pairs w) = Inr ltps \<and>
                   mset (map PairOf ltps) = mset (cacheMisses pairs w))"
  shows "\<exists>result. fst (GetLTPs lib ext pairsStr w) = Inr result \<and>
           mset (map PairOf result) = mset pairs \<and>
           sorted (map (\<lambda>ltp. Value (PairOf ltp)) result)"
proof (cases "cacheMisses pairs w = []")
  case True
  then have "fst (GetLTPs lib ext pairsStr w) = Inr (sortByPair (cacheHits pairs w))"
    by (simp add: GetLTPs_parsed[OF assms(1)])
  moreover have "mset (map PairOf (sortByPair (cacheHits pairs w))) = mset pairs"
    using hits_misses_mset[OF assms(2), of pairs] True by simp
  ultimately show ?thesis using sorted_sortByPair by blast
next
  case False
  with assms(3) obtain ltps where l: "ext (cacheMisses pairs w) = Inr ltps"
    "mset (map PairOf ltps) = mset (cacheMisses pairs w)" by blast
  have "fst (GetLTPs lib ext pairsStr w) = Inr (sortByPair (cacheHits pairs w @ ltps))"
    using False l(1) by (simp add: GetLTPs_parsed[OF assms(1)])
  moreover have "mset (map PairOf (sortByPair (cacheHits pairs w @ ltps))) = mset pairs"
    using hits_misses_mset[OF assms(2), of pairs] l(2) by simp
  ultimately show ?thesis using sorted_sortByPair by blast
qed

section \<open>Running the examples\<close>

lemmas run_defs =
  ParsePairs_def NewPair_def asciiStrings_def asciiSpace_def asciiUpper_def validPairs_def
  BTCUSD_def BTCCHF_def BTCEUR_def InMemoryCache_GetLTP_def InMemoryCache_SetLTP_def
  NewInMemoryCache_def IsExpired_def Since_def Now_def NewCachedLTP_def Minute_def
  external_GetTickers_def GetTickers_def NewKrakenClient_def pairToKrakenSymbol_def
  findKrakenSymbolInResult_def map_len_def parseDecimal_def parseUnsigned_def digitVal_def
  Let_def exResponse_def exKraken_def exKrakenDown_def exCold_def exWarm_def

lemma ex_parse2:
  "ParsePairs asciiStrings ''BTC/USD,BTC/EUR'' = Inr [\<lparr>Value = ''BTC/USD''\<rparr>, \<lparr>Value = ''BTC/EUR''\<rparr>]"
  by (simp add: run_defs)

lemma ex_parse1: "ParsePairs asciiStrings ''BTC/USD'' = Inr [\<lparr>Value = ''BTC/USD''\<rparr>]"
  by (simp add: run_defs)

lemma ex_cold_misses2:
  "cacheMisses [\<lparr>Value = ''BTC/USD''\<rparr>, \<lparr>Value = ''BTC/EUR''\<rparr>] exCold
     = [\<lparr>Value = ''BTC/USD''\<rparr>, \<lparr>Value = ''BTC/EUR''\<rparr>]"
  by (simp add: run_defs)

lemma ex_cold_misses3:
  "cacheMisses [\<lparr>Value = BTCUSD\<rparr>, \<lparr>Value = BTCCHF\<rparr>, \<lparr>Value = BTCEUR\<rparr>] exCold
     = [\<lparr>Value = BTCUSD\<rparr>, \<lparr>Value = BTCCHF\<rparr>, \<lparr>Value = BTCEUR\<rparr>]"
  by (simp add: run_defs)

lemma ex_warm_misses2:
  "cacheMisses [\<lparr>Value = ''BTC/USD''\<rparr>, \<lparr>Value = ''BTC/EUR''\<rparr>] exWarm = [\<lparr>Value = ''BTC/EUR''\<rparr>]"
  by (simp add: run_defs)

lemma ex_warm_misses1: "cacheMisses [\<lparr>Value = ''BTC/USD''\<rparr>] exWarm = []"
  by (simp add: run_defs)

lemma ex_fetch2:
  "GetTickers parseDecimal exKraken [\<lparr>Value = ''BTC/USD''\<rparr>, \<lparr>Value = ''BTC/EUR''\<rparr>]
     = Inr [\<lparr>PairOf = \<lparr>Value = ''BTC/USD''\<rparr>, Amount = 5200012 / 100\<rparr>,
            \<lparr>PairOf = \<lparr>Value = ''BTC/EUR''\<rparr>, Amount = 5000012 / 100\<rparr>]"
  by (simp add: run_defs)

lemma ex_fetch3:
  "GetTickers parseDecimal exKraken [\<lparr>Value = BTCUSD\<rparr>, \<lparr>Value = BTCCHF\<rparr>, \<lparr>Value = BTCEUR\<rparr>]
     = Inr [\<lparr>PairOf = \<lparr>Value = BTCUSD\<rparr>, Amount = 5200012 / 100\<rparr>,
            \<lparr>PairOf = \<lparr>Value = BTCCHF\<rparr>, Amount = 4900012 / 100\<rparr>,
            \<lparr>PairOf = \<lparr>Value = BTCEUR\<rparr>, Amount = 5000012 / 100\<rparr>]"
  by (simp add: run_defs)

lemma ex_fetch_down:
  "GetTickers parseDecimal exKrakenDown [\<lparr>Value = ''BTC/EUR''\<rparr>] = Inl (BadStatus 503)"
  by (simp add: run_defs)

lemma ex_warm_keyed: "storeKeyed exWarm"
  by (simp add: storeKeyed_def exWarm_def)

lemma ex_fetch_any:
  assumes "ps \<noteq> []" and "set ps \<subseteq> {\<lparr>Value = ''BTC/USD''\<rparr>, \<lparr>Value = ''BTC/EUR''\<rparr>}"
  shows "\<exists>ltps. GetTickers parseDecimal exKraken ps = Inr ltps \<and> mset (map PairOf ltps) = mset ps"
proof -
  have h: "httpClient exKraken (tickerURL exKraken ps) = Response 200 (Decoded exResponse)"
    by (simp add: exKraken_def NewKrakenClient_def)
  have e: "Error exResponse = []" by (simp add: exResponse_def)
  have g: "GetTickers parseDecimal exKraken ps = mapTickers parseDecimal (Result exResponse) ps []"
    using assms(1) h e by (rule GetTickers_decoded)
  have usd: "findKrakenSymbolInResult (Result exResponse) (pairToKrakenSymbol \<lparr>Value = ''BTC/USD''\<rparr>)
      = (\<lparr>C = [''52000.12'']\<rparr>, ''XXBTZUSD'', True)"
    by (simp add: run_defs)
  have eur: "findKrakenSymbolInResult (Result exResponse) (pairToKrakenSymbol \<lparr>Value = ''BTC/EUR''\<rparr>)
      = (\<lparr>C = [''50000.12'']\<rparr>, ''XXBTZEUR'', True)"
    by (simp add: run_defs)
  have pu: "parseDecimal ''52000.12'' = Some (5200012 / 100)" by (simp add: run_defs)
  have pe: "parseDecimal ''50000.12'' = Some (5000012 / 100)" by (simp add: run_defs)
  have "\<exists>d key c0 cs a.
      findKrakenSymbolInResult (Result exResponse) (pairToKrakenSymbol p) = (d, key, True) \<and>
      C d = c0 # cs \<and> c0 \<noteq> [] \<and> parseDecimal c0 = Some a" if "p \<in> set ps" for p
  proof -
    from that assms(2) consider "p = \<lparr>Value = ''BTC/USD''\<rparr>" | "p = \<lparr>Value = ''BTC/EUR''\<rparr>"
      by blast
    then show ?thesis
    proof cases
      case 1
      show ?thesis unfolding 1 usd using pu
        by (intro exI[of _ "\<lparr>C = [''52000.12'']\<rparr>"] exI[of _ "''XXBTZUSD''"]
            exI[of _ "''52000.12''"] exI[of _ "[]"] exI[of _ "5200012 / 100"]) simp
    next
      case 2
      show ?thesis unfolding 2 eur using pe
        by (intro exI[of _ "\<lparr>C = [''50000.12'']\<rparr>"] exI[of _ "''XXBTZEUR''"]
            exI[of _ "''50000.12''"] exI[of _ "[]"] exI[of _ "5000012 / 100"]) simp
    qed
  qed
  then have "\<exists>r. mapTickers parseDecimal (Result exResponse) ps [] = Inr r"
    by (intro mapTickers_success) blast
  then obtain r where r: "mapTickers parseDecimal (Result exResponse) ps [] = Inr r" by blast
  from mapTickers_pairs[OF r] have "map PairOf r = ps" by simp
  then have m: "mset (map PairOf r) = mset ps" by (rule arg_cong)
  have "GetTickers parseDecimal exKraken ps = Inr r" using g r by (rule trans)
  with m show ?thesis by (intro exI[of _ r] conjI)
qed

section \<open>The service: the claims\<close>

text \<open>
  Claim C1. Take a non-empty specification that is valid, that is, every token of it
  (every piece between commas) is in the catalog once trimmed and upper-cased; a store
  whose entries lie under their own pairs; and an upstream fetcher that answers every
  non-empty request for pairs of the specification with one price for each requested
  pair. Then \<open>ParsePairs\<close> accepts the specification, the parsed pairs are the distinct
  normalised tokens, and \<open>GetLTPs\<close> succeeds with exactly one price for each of them,
  sorted ascending by the value of the pair.
\<close>

theorem C1_one_quote_per_pair_sorted:
  assumes "pairsStr \<noteq> []"
    and "\<forall>tok \<in> set (Split pairsStr CHR '',''). validPairs (ToUpper lib (TrimSpace lib tok))"
    and "storeKeyed w"
    and "\<forall>ps. ps \<noteq> [] \<longrightarrow>
           set ps \<subseteq> (\<lambda>tok. \<lparr>Value = ToUpper lib (TrimSpace lib tok)\<rparr>) ` set (Split pairsStr CHR '','') \<longrightarrow>
           (\<exists>ltps. ext ps = Inr ltps \<and> mset (map PairOf ltps) = mset ps)"
  shows "\<exists>pairs result.
           ParsePairs lib pairsStr = Inr pairs \<and>
           distinct pairs \<and>
           set pairs = (\<lambda>tok. \<lparr>Value = ToUpper lib (TrimSpace lib tok)\<rparr>) ` set (Split pairsStr CHR '','') \<and>
           fst (GetLTPs lib ext pairsStr w) = Inr result \<and>
           mset (map PairOf result) = mset pairs \<and>
           length result = length pairs \<and>
           sorted (map (\<lambda>ltp. Value (PairOf ltp)) result)"
proof -
  from ParsePairs_valid[OF assms(1,2)] obtain pairs where
    p: "ParsePairs lib pairsStr = Inr pairs" by blast
  have d: "distinct pairs" using ParsePairs_Inr[OF p] by simp
  have t: "set pairs = (\<lambda>tok. \<lparr>Value = ToUpper lib (TrimSpace lib tok)\<rparr>) ` set (Split pairsStr CHR '','')"
    using assms(1) p by (rule ParsePairs_tokens)
  have "set (cacheMisses pairs w) \<subseteq> set pairs" by (rule cacheMisses_subset)
  then have f: "cacheMisses pairs w \<noteq> [] \<longrightarrow>
           (\<exists>ltps. ext (cacheMisses pairs w) = Inr ltps \<and>
                   mset (map PairOf ltps) = mset (cacheMisses pairs w))"
    using assms(4) unfolding t by blast
  from GetLTPs_success[where ext = ext, OF p assms(3) f] obtain result where
    r: "fst (GetLTPs lib ext pairsStr w) = Inr result" "mset (map PairOf result) = mset pairs"
    "sorted (map (\<lambda>ltp. Value (PairOf ltp)) result)" by blast
  have "length result = length pairs" using r(2) by (metis length_map size_mset)
  with p d t r show ?thesis by blast
qed

text \<open>
  Claim C6. The empty specification is not an error: it parses to the three pairs of the
  catalog, and \<open>GetLTPs\<close> (under the conditions of C1 on the store and on the upstream
  fetcher) returns their prices in the order BTC/CHF, BTC/EUR, BTC/USD.
\<close>

theorem C6_empty_spec_returns_catalog:
  assumes "storeKeyed w"
    and "cacheMisses [\<lparr>Value = BTCUSD\<rparr>, \<lparr>Value = BTCCHF\<rparr>, \<lparr>Value = BTCEUR\<rparr>] w \<noteq> [] \<longrightarrow>
           (\<exists>ltps. ext (cacheMisses [\<lparr>Value = BTCUSD\<rparr>, \<lparr>Value = BTCCHF\<rparr>, \<lparr>Value = BTCEUR\<rparr>] w) = Inr ltps \<and>
                   mset (map PairOf ltps) =
                   mset (cacheMisses [\<lparr>Value = BTCUSD\<rparr>, \<lparr>Value = BTCCHF\<rparr>, \<lparr>Value = BTCEUR\<rparr>] w))"
  shows "ParsePairs lib [] = Inr [\<lparr>Value = BTCUSD\<rparr>, \<lparr>Value = BTCCHF\<rparr>, \<lparr>Value = BTCEUR\<rparr>] \<and>
         (\<exists>result. fst (GetLTPs lib ext [] w) = Inr result \<and>
            map (\<lambda>ltp. Value (PairOf ltp)) result = [''BTC/CHF'', ''BTC/EUR'', ''BTC/USD''])"
proof -
  let ?all = "[\<lparr>Value = BTCUSD\<rparr>, \<lparr>Value = BTCCHF\<rparr>, \<lparr>Value = BTCEUR\<rparr>]"
  have p: "ParsePairs lib [] = Inr ?all" by (simp add: ParsePairs_def)
  from GetLTPs_success[where ext = ext, OF p assms] obtain result where
    r: "fst (GetLTPs lib ext [] w) = Inr result" "mset (map PairOf result) = mset ?all"
    "sorted (map (\<lambda>ltp. Value (PairOf ltp)) result)" by blast
  let ?vs = "map (\<lambda>ltp. Value (PairOf ltp)) result"
  have "mset ?vs = image_mset Value (mset (map PairOf result))"
    by (simp add: multiset.map_comp comp_def)
  also have "\<dots> = mset [''BTC/USD'', ''BTC/CHF'', ''BTC/EUR'']"
    unfolding r(2) by (simp add: BTCUSD_def BTCCHF_def BTCEUR_def)
  finally have m: "mset ?vs = mset [''BTC/USD'', ''BTC/CHF'', ''BTC/EUR'']" .
  have "sort [''BTC/USD'', ''BTC/CHF'', ''BTC/EUR''] = ?vs"
    using m r(3) by (rule properties_for_sort)
  then have v: "?vs = [''BTC/CHF'', ''BTC/EUR'', ''BTC/USD'']" by simp
  have "\<exists>result. fst (GetLTPs lib ext [] w) = Inr result \<and>
            map (\<lambda>ltp. Value (PairOf ltp)) result = [''BTC/CHF'', ''BTC/EUR'', ''BTC/USD'']"
    using r(1) v by (intro exI[of _ result] conjI)
  with p show ?thesis by (rule conjI)
qed

text \<open>
  Claim C7. When a non-empty specification has a token whose trimmed, upper-cased form
  is not in the catalog, \<open>GetLTPs\<close> fails with the invalid-pair error of such a token and
  returns the state as it was: no call to the upstream fetcher, no cache lookup and no
  cache write.
\<close>

theorem C7_invalid_token_rejected:
  assumes "pairsStr \<noteq> []" and "tok \<in> set (Split pairsStr CHR '','')"
    and "\<not> validPairs (ToUpper lib (TrimSpace lib tok))"
  shows "(\<exists>bad \<in> set (Split pairsStr CHR '','').
            \<not> validPairs (ToUpper lib (TrimSpace lib bad)) \<and>
            GetLTPs lib ext pairsStr w =
              (Inl (InvalidPairs (InvalidPair (ToUpper lib (TrimSpace lib bad)))), w))
         \<and> fetchCalls (newEvents w (snd (GetLTPs lib ext pairsStr w))) = []
         \<and> cacheReads (newEvents w (snd (GetLTPs lib ext pairsStr w))) = []
         \<and> cacheWrites (newEvents w (snd (GetLTPs lib ext pairsStr w))) = []
         \<and> trace (snd (GetLTPs lib ext pairsStr w)) = trace w
         \<and> store (snd (GetLTPs lib ext pairsStr w)) = store w"
proof -
  from ParsePairs_invalid[OF assms] obtain bad where
    b: "bad \<in> set (Split pairsStr CHR '','')" "\<not> validPairs (ToUpper lib (TrimSpace lib bad))"
    "ParsePairs lib pairsStr = Inl (InvalidPair (ToUpper lib (TrimSpace lib bad)))" by blast
  have g: "GetLTPs lib ext pairsStr w =
      (Inl (InvalidPairs (InvalidPair (ToUpper lib (TrimSpace lib bad)))), w)"
    using b(3) by (rule GetLTPs_invalid)
  show ?thesis using b(1,2) g by (auto simp: newEvents_def)
qed

text \<open>
  Claim C3. When the one batched fetch fails, \<open>GetLTPs\<close> fails with that error wrapped,
  so it returns no price at all, whatever the cache held. And whenever \<open>GetLTPs\<close> fails,
  for any reason, the store is as it was before the call and no cache write was made.
\<close>

theorem C3_fetch_failure_fails_whole_call:
  "(ParsePairs lib pairsStr = Inr pairs \<longrightarrow> cacheMisses pairs w \<noteq> [] \<longrightarrow>
      ext (cacheMisses pairs w) = Inl err \<longrightarrow>
      fst (GetLTPs lib ext pairsStr w) = Inl (FetchFailed err))
   \<and> (isl (fst (GetLTPs lib ext pairsStr w)) \<longrightarrow>
        store (snd (GetLTPs lib ext pairsStr w)) = store w \<and>
        cacheWrites (newEvents w (snd (GetLTPs lib ext pairsStr w))) = [])"
proof (intro conjI impI)
  assume "ParsePairs lib pairsStr = Inr pairs" "cacheMisses pairs w \<noteq> []"
    "ext (cacheMisses pairs w) = Inl err"
  then show "fst (GetLTPs lib ext pairsStr w) = Inl (FetchFailed err)"
    by (simp add: GetLTPs_parsed)
next
  assume f: "isl (fst (GetLTPs lib ext pairsStr w))"
  show "store (snd (GetLTPs lib ext pairsStr w)) = store w"
  proof (cases "ParsePairs lib pairsStr")
    case (Inl e)
    then show ?thesis by (simp add: GetLTPs_invalid)
  next
    case (Inr ps)
    show ?thesis using f
      by (simp add: GetLTPs_parsed[OF Inr] split: if_splits sum.splits)
  qed
next
  assume f: "isl (fst (GetLTPs lib ext pairsStr w))"
  show "cacheWrites (newEvents w (snd (GetLTPs lib ext pairsStr w))) = []"
  proof (cases "ParsePairs lib pairsStr")
    case (Inl e)
    then show ?thesis by (simp add: GetLTPs_invalid newEvents_def)
  next
    case (Inr ps)
    show ?thesis using f
      by (simp add: GetLTPs_parsed[OF Inr] newEvents_def split: if_splits sum.splits)
  qed
qed

text \<open>
  Claim C4. A call of \<open>GetLTPs\<close> calls the upstream fetcher at most once. When the
  specification parses, the fetcher is called exactly once if some requested pair was
  not a fresh cache hit, with exactly those pairs in request order, and not at all if
  every pair was a fresh hit; then the result is the sorted list of the prices the
  store holds for the pairs, and the store is unchanged.
\<close>

theorem C4_at_most_one_fetch:
  "length (fetchCalls (newEvents w (snd (GetLTPs lib ext pairsStr w)))) \<le> 1
   \<and> (ParsePairs lib pairsStr = Inr pairs \<longrightarrow>
        fetchCalls (newEvents w (snd (GetLTPs lib ext pairsStr w))) =
          (if cacheMisses pairs w = [] then [] else [cacheMisses pairs w])
        \<and> cacheReads (newEvents w (snd (GetLTPs lib ext pairsStr w))) = pairs
        \<and> (cacheMisses pairs w = [] \<longrightarrow>
             fst (GetLTPs lib ext pairsStr w) = Inr (sortByPair (cachedQuotes w pairs))
             \<and> length (cachedQuotes w pairs) = length pairs
             \<and> store (snd (GetLTPs lib ext pairsStr w)) = store w))"
proof -
  have calls: "fetchCalls (newEvents w (snd (GetLTPs lib ext pairsStr w))) =
          (if cacheMisses ps w = [] then [] else [cacheMisses ps w])"
    and reads: "cacheReads (newEvents w (snd (GetLTPs lib ext pairsStr w))) = ps"
    if "ParsePairs lib pairsStr = Inr ps" for ps
    by (simp_all add: GetLTPs_events[OF that] split: sum.splits)
  have hits: "fst (GetLTPs lib ext pairsStr w) = Inr (sortByPair (cachedQuotes w ps))
             \<and> length (cachedQuotes w ps) = length ps
             \<and> store (snd (GetLTPs lib ext pairsStr w)) = store w"
    if "ParsePairs lib pairsStr = Inr ps" "cacheMisses ps w = []" for ps
    using all_hits_cached[OF that(2)] that(2) by (simp add: GetLTPs_parsed[OF that(1)])
  have most: "length (fetchCalls (newEvents w (snd (GetLTPs lib ext pairsStr w)))) \<le> 1"
  proof (cases "ParsePairs lib pairsStr")
    case (Inl e)
    then show ?thesis by (simp add: GetLTPs_invalid newEvents_def)
  next
    case (Inr ps)
    then show ?thesis by (simp add: calls)
  qed
  show ?thesis using most calls reads hits by blast
qed

text \<open>The specification's example: BTC/USD and BTC/EUR on a cold cache.\<close>

theorem C1_one_quote_per_pair_sorted_witness:
  "Split ''BTC/USD,BTC/EUR'' CHR '','' = [''BTC/USD'', ''BTC/EUR'']
   \<and> validPairs (ToUpper asciiStrings (TrimSpace asciiStrings ''BTC/USD''))
   \<and> validPairs (ToUpper asciiStrings (TrimSpace asciiStrings ''BTC/EUR''))
   \<and> storeKeyed exCold
   \<and> GetTickers parseDecimal exKraken [\<lparr>Value = ''BTC/USD''\<rparr>, \<lparr>Value = ''BTC/EUR''\<rparr>]
      = Inr [\<lparr>PairOf = \<lparr>Value = ''BTC/USD''\<rparr>, Amount = 5200012 / 100\<rparr>,
             \<lparr>PairOf = \<lparr>Value = ''BTC/EUR''\<rparr>, Amount = 5000012 / 100\<rparr>]
   \<and> (\<exists>pairs result.
         ParsePairs asciiStrings ''BTC/USD,BTC/EUR'' = Inr pairs \<and>
         distinct pairs \<and>
         set pairs = {\<lparr>Value = ''BTC/USD''\<rparr>, \<lparr>Value = ''BTC/EUR''\<rparr>} \<and>
         fst (GetLTPs asciiStrings (GetTickers parseDecimal exKraken) ''BTC/USD,BTC/EUR'' exCold)
           = Inr result \<and>
         mset (map PairOf result) = mset pairs \<and>
         length result = length pairs \<and>
         sorted (map (\<lambda>ltp. Value (PairOf ltp)) result))
   \<and> ParsePairs asciiStrings ''BTC/USD,BTC/EUR'' = Inr [\<lparr>Value = ''BTC/USD''\<rparr>, \<lparr>Value = ''BTC/EUR''\<rparr>]
   \<and> fst (GetLTPs asciiStrings (GetTickers parseDecimal exKraken) ''BTC/USD,BTC/EUR'' exCold)
      = Inr [\<lparr>PairOf = \<lparr>Value = ''BTC/EUR''\<rparr>, Amount = 5000012 / 100\<rparr>,
             \<lparr>PairOf = \<lparr>Value = ''BTC/USD''\<rparr>, Amount = 5200012 / 100\<rparr>]"
proof -
  let ?ext = "GetTickers parseDecimal exKraken :: Pair list \<Rightarrow> error + real LTP list"
  let ?s = "''BTC/USD,BTC/EUR''"
  have sp: "Split ?s CHR '','' = [''BTC/USD'', ''BTC/EUR'']" by simp
  have vu: "validPairs (ToUpper asciiStrings (TrimSpace asciiStrings ''BTC/USD''))"
    by (simp add: run_defs)
  have ve: "validPairs (ToUpper asciiStrings (TrimSpace asciiStrings ''BTC/EUR''))"
    by (simp add: run_defs)
  have im: "(\<lambda>tok. \<lparr>Value = ToUpper asciiStrings (TrimSpace asciiStrings tok)\<rparr>) ` set (Split ?s CHR '','')
      = {\<lparr>Value = ''BTC/USD''\<rparr>, \<lparr>Value = ''BTC/EUR''\<rparr>}"
    unfolding sp by (simp add: run_defs)
  have h1: "?s \<noteq> []" by simp
  have h2: "\<forall>tok \<in> set (Split ?s CHR '','').
      validPairs (ToUpper asciiStrings (TrimSpace asciiStrings tok))"
    unfolding sp using vu ve by simp
  have h3: "storeKeyed exCold" unfolding exCold_def by (rule storeKeyed_new)
  have h4: "\<forall>ps. ps \<noteq> [] \<longrightarrow>
      set ps \<subseteq> (\<lambda>tok. \<lparr>Value = ToUpper asciiStrings (TrimSpace asciiStrings tok)\<rparr>) ` set (Split ?s CHR '','') \<longrightarrow>
      (\<exists>ltps. ?ext ps = Inr ltps \<and> mset (map PairOf ltps) = mset ps)"
    unfolding im using ex_fetch_any by blast
  note t = C1_one_quote_per_pair_sorted[where ext = ?ext, OF h1 h2 h3 h4, unfolded im]
  have r: "fst (GetLTPs asciiStrings ?ext ?s exCold)
      = Inr [\<lparr>PairOf = \<lparr>Value = ''BTC/EUR''\<rparr>, Amount = 5000012 / 100\<rparr>,
             \<lparr>PairOf = \<lparr>Value = ''BTC/USD''\<rparr>, Amount = 5200012 / 100\<rparr>]"
    by (simp add: GetLTPs_parsed[OF ex_parse2] ex_cold_misses2 ex_fetch2)
      (simp add: sortByPair_def run_defs)
  show ?thesis using sp vu ve h3 ex_fetch2 t ex_parse2 r by (intro conjI)
qed

text \<open>The empty specification on a cold cache.\<close>

theorem C6_empty_spec_returns_catalog_witness:
  "storeKeyed exCold
   \<and> GetTickers parseDecimal exKraken
        (cacheMisses [\<lparr>Value = BTCUSD\<rparr>, \<lparr>Value = BTCCHF\<rparr>, \<lparr>Value = BTCEUR\<rparr>] exCold)
      = Inr [\<lparr>PairOf = \<lparr>Value = BTCUSD\<rparr>, Amount = 5200012 / 100\<rparr>,
             \<lparr>PairOf = \<lparr>Value = BTCCHF\<rparr>, Amount = 4900012 / 100\<rparr>,
             \<lparr>PairOf = \<lparr>Value = BTCEUR\<rparr>, Amount = 5000012 / 100\<rparr>]
   \<and> ParsePairs asciiStrings [] = Inr [\<lparr>Value = BTCUSD\<rparr>, \<lparr>Value = BTCCHF\<rparr>, \<lparr>Value = BTCEUR\<rparr>]
   \<and> (\<exists>result.
         fst (GetLTPs asciiStrings (GetTickers parseDecimal exKraken) [] exCold) = Inr result \<and>
         map (\<lambda>ltp. Value (PairOf ltp)) result = [''BTC/CHF'', ''BTC/EUR'', ''BTC/USD''])"
proof -
  let ?all = "[\<lparr>Value = BTCUSD\<rparr>, \<lparr>Value = BTCCHF\<rparr>, \<lparr>Value = BTCEUR\<rparr>]"
  let ?ext = "GetTickers parseDecimal exKraken :: Pair list \<Rightarrow> error + real LTP list"
  have h1: "storeKeyed exCold" unfolding exCold_def by (rule storeKeyed_new)
  have f: "?ext (cacheMisses ?all exCold)
      = Inr [\<lparr>PairOf = \<lparr>Value = BTCUSD\<rparr>, Amount = 5200012 / 100\<rparr>,
             \<lparr>PairOf = \<lparr>Value = BTCCHF\<rparr>, Amount = 4900012 / 100\<rparr>,
             \<lparr>PairOf = \<lparr>Value = BTCEUR\<rparr>, Amount = 5000012 / 100\<rparr>]"
    unfolding ex_cold_misses3 by (rule ex_fetch3)
  have h2: "cacheMisses ?all exCold \<noteq> [] \<longrightarrow>
      (\<exists>ltps. ?ext (cacheMisses ?all exCold) = Inr ltps \<and>
              mset (map PairOf ltps) = mset (cacheMisses ?all exCold))"
    unfolding ex_cold_misses3 ex_fetch3 by simp
  note t = C6_empty_spec_returns_catalog[where ext = ?ext and lib = asciiStrings, OF h1 h2]
  show ?thesis using h1 f t by (intro conjI) simp_all
qed

text \<open>A specification with one supported and one unsupported token.\<close>

theorem C7_invalid_token_rejected_witness:
  "''BTC/INVALID'' \<in> set (Split ''BTC/USD,BTC/INVALID'' CHR '','')
   \<and> \<not> validPairs (ToUpper asciiStrings (TrimSpace asciiStrings ''BTC/INVALID''))
   \<and> GetLTPs asciiStrings (GetTickers parseDecimal exKraken) ''BTC/USD,BTC/INVALID'' exWarm
      = (Inl (InvalidPairs (InvalidPair ''BTC/INVALID'')), exWarm)
   \<and> fetchCalls (newEvents exWarm
        (snd (GetLTPs asciiStrings (GetTickers parseDecimal exKraken) ''BTC/USD,BTC/INVALID'' exWarm)))
      = []
   \<and> cacheReads (newEvents exWarm
        (snd (GetLTPs asciiStrings (GetTickers parseDecimal exKraken) ''BTC/USD,BTC/INVALID'' exWarm)))
      = []
   \<and> cacheWrites (newEvents exWarm
        (snd (GetLTPs asciiStrings (GetTickers parseDecimal exKraken) ''BTC/USD,BTC/INVALID'' exWarm)))
      = []"
proof -
  let ?ext = "GetTickers parseDecimal exKraken :: Pair list \<Rightarrow> error + real LTP list"
  let ?s = "''BTC/USD,BTC/INVALID''"
  have h1: "?s \<noteq> []" by simp
  have h2: "''BTC/INVALID'' \<in> set (Split ?s CHR '','')" by simp
  have h3: "\<not> validPairs (ToUpper asciiStrings (TrimSpace asciiStrings ''BTC/INVALID''))"
    by (simp add: run_defs)
  note t = C7_invalid_token_rejected[where ext = ?ext and w = exWarm, OF h1 h2 h3]
  have n: "ToUpper asciiStrings (TrimSpace asciiStrings ''BTC/USD'') = ''BTC/USD''"
    "ToUpper asciiStrings (TrimSpace asciiStrings ''BTC/INVALID'') = ''BTC/INVALID''"
    by (simp_all add: run_defs)
  have v: "validPairs ''BTC/USD''" by (simp add: run_defs)
  have s: "set (Split ?s CHR '','') = {''BTC/USD'', ''BTC/INVALID''}" by simp
  from t[THEN conjunct1] have
    g: "GetLTPs asciiStrings ?ext ?s exWarm = (Inl (InvalidPairs (InvalidPair ''BTC/INVALID'')), exWarm)"
    unfolding s using n v by auto
  show ?thesis using h2 h3 g t by (intro conjI) simp_all
qed

text \<open>BTC/USD is a fresh hit, BTC/EUR is fetched, and Kraken answers 503.\<close>

theorem C3_fetch_failure_fails_whole_call_witness:
  "ParsePairs asciiStrings ''BTC/USD,BTC/EUR'' = Inr [\<lparr>Value = ''BTC/USD''\<rparr>, \<lparr>Value = ''BTC/EUR''\<rparr>]
   \<and> cacheMisses [\<lparr>Value = ''BTC/USD''\<rparr>, \<lparr>Value = ''BTC/EUR''\<rparr>] exWarm = [\<lparr>Value = ''BTC/EUR''\<rparr>]
   \<and> GetTickers parseDecimal exKrakenDown [\<lparr>Value = ''BTC/EUR''\<rparr>] = Inl (BadStatus 503)
   \<and> fst (GetLTPs asciiStrings (GetTickers parseDecimal exKrakenDown) ''BTC/USD,BTC/EUR'' exWarm)
      = Inl (FetchFailed (BadStatus 503))
   \<and> store (snd (GetLTPs asciiStrings (GetTickers parseDecimal exKrakenDown) ''BTC/USD,BTC/EUR'' exWarm))
      = store exWarm
   \<and> cacheWrites (newEvents exWarm
        (snd (GetLTPs asciiStrings (GetTickers parseDecimal exKrakenDown) ''BTC/USD,BTC/EUR'' exWarm)))
      = []"
proof -
  let ?ext = "GetTickers parseDecimal exKrakenDown :: Pair list \<Rightarrow> error + real LTP list"
  let ?pairs = "[\<lparr>Value = ''BTC/USD''\<rparr>, \<lparr>Value = ''BTC/EUR''\<rparr>]"
  note t = C3_fetch_failure_fails_whole_call[where lib = asciiStrings and ext = ?ext
      and pairsStr = "''BTC/USD,BTC/EUR''" and w = exWarm and pairs = ?pairs
      and err = "BadStatus 503"]
  have m: "cacheMisses ?pairs exWarm \<noteq> []" unfolding ex_warm_misses2 by simp
  have e: "?ext (cacheMisses ?pairs exWarm) = Inl (BadStatus 503)"
    unfolding ex_warm_misses2 by (rule ex_fetch_down)
  have r: "fst (GetLTPs asciiStrings ?ext ''BTC/USD,BTC/EUR'' exWarm) = Inl (FetchFailed (BadStatus 503))"
    by (rule t[THEN conjunct1, rule_format, OF ex_parse2 m e])
  then have i: "isl (fst (GetLTPs asciiStrings ?ext ''BTC/USD,BTC/EUR'' exWarm))" by simp
  note u = t[THEN conjunct2, rule_format, OF i]
  show ?thesis using ex_parse2 ex_warm_misses2 ex_fetch_down r u by (intro conjI) simp_all
qed

text \<open>One fetch for the pair that is missing; none when the only pair is a fresh hit.\<close>

theorem C4_at_most_one_fetch_witness:
  "ParsePairs asciiStrings ''BTC/USD,BTC/EUR'' = Inr [\<lparr>Value = ''BTC/USD''\<rparr>, \<lparr>Value = ''BTC/EUR''\<rparr>]
   \<and> cacheMisses [\<lparr>Value = ''BTC/USD''\<rparr>, \<lparr>Value = ''BTC/EUR''\<rparr>] exWarm = [\<lparr>Value = ''BTC/EUR''\<rparr>]
   \<and> fetchCalls (newEvents exWarm
        (snd (GetLTPs asciiStrings (GetTickers parseDecimal exKraken) ''BTC/USD,BTC/EUR'' exWarm)))
      = [[\<lparr>Value = ''BTC/EUR''\<rparr>]]
   \<and> ParsePairs asciiStrings ''BTC/USD'' = Inr [\<lparr>Value = ''BTC/USD''\<rparr>]
   \<and> cacheMisses [\<lparr>Value = ''BTC/USD''\<rparr>] exWarm = []
   \<and> fetchCalls (newEvents exWarm
        (snd (GetLTPs asciiStrings (GetTickers parseDecimal exKraken) ''BTC/USD'' exWarm)))
      = []
   \<and> fst (GetLTPs asciiStrings (GetTickers parseDecimal exKraken) ''BTC/USD'' exWarm)
      = Inr [\<lparr>PairOf = \<lparr>Value = ''BTC/USD''\<rparr>, Amount = 52000\<rparr>]"
proof -
  let ?ext = "GetTickers parseDecimal exKraken :: Pair list \<Rightarrow> error + real LTP list"
  note t2 = C4_at_most_one_fetch[where lib = asciiStrings and ext = ?ext
      and pairsStr = "''BTC/USD,BTC/EUR''" and w = exWarm, THEN conjunct2, rule_format,
      OF ex_parse2]
  note t1 = C4_at_most_one_fetch[where lib = asciiStrings and ext = ?ext
      and pairsStr = "''BTC/USD''" and w = exWarm, THEN conjunct2, rule_format, OF ex_parse1]
  have a: "fetchCalls (newEvents exWarm (snd (GetLTPs asciiStrings ?ext ''BTC/USD,BTC/EUR'' exWarm)))
      = [[\<lparr>Value = ''BTC/EUR''\<rparr>]]"
    using t2[THEN conjunct1] unfolding ex_warm_misses2 by simp
  have b: "fetchCalls (newEvents exWarm (snd (GetLTPs asciiStrings ?ext ''BTC/USD'' exWarm))) = []"
    using t1[THEN conjunct1] unfolding ex_warm_misses1 by simp
  have q: "sortByPair (cachedQuotes exWarm [\<lparr>Value = ''BTC/USD''\<rparr>])
      = [\<lparr>PairOf = \<lparr>Value = ''BTC/USD''\<rparr>, Amount = 52000\<rparr>]"
    by (simp add: sortByPair_def exWarm_def)
  have c: "fst (GetLTPs asciiStrings ?ext ''BTC/USD'' exWarm)
      = Inr [\<lparr>PairOf = \<lparr>Value = ''BTC/USD''\<rparr>, Amount = 52000\<rparr>]"
    using t1[THEN conjunct2, THEN conjunct2, rule_format, OF ex_warm_misses1, THEN conjunct1]
    unfolding q .
  show ?thesis using ex_parse2 ex_warm_misses2 a ex_parse1 ex_warm_misses1 b c by (intro conjI)
qed

section \<open>The HTTP handler: status codes\<close>

text \<open>
  Claim C8. The claim asks for two different responses: a client error for invalid
  input, a server-side error for an upstream failure. The handler answers every error of
  the service with 400: here the same status for an unsupported pair and for a Kraken
  reply with status 503 on a valid request.
\<close>

theorem C8_handler_answers_400_for_upstream_failure:
  "fst (fst (Handler_GetLTP
        (GetLTPs asciiStrings
           (GetTickers parseDecimal (NewKrakenClient (\<lambda>url. Response 503 ReadError) [])))
        ''BTC/USD'' (NewInMemoryCache (\<lambda>n. 0)))) = StatusBadRequest
   \<and> fst (GetLTPs asciiStrings
           (GetTickers parseDecimal (NewKrakenClient (\<lambda>url. Response 503 ReadError) []))
        ''BTC/USD'' (NewInMemoryCache (\<lambda>n. 0))) = Inl (FetchFailed (BadStatus 503))
   \<and> fst (fst (Handler_GetLTP
        (GetLTPs asciiStrings
           (GetTickers parseDecimal (NewKrakenClient (\<lambda>url. Response 503 ReadError) [])))
        ''BTC/INVALID'' (NewInMemoryCache (\<lambda>n. 0)))) = StatusBadRequest
   \<and> fst (GetLTPs asciiStrings
           (GetTickers parseDecimal (NewKrakenClient (\<lambda>url. Response 503 ReadError) []))
        ''BTC/INVALID'' (NewInMemoryCache (\<lambda>n. 0))) = Inl (InvalidPairs (InvalidPair ''BTC/INVALID''))"
  by (simp add: Handler_GetLTP_def GetLTPs_def ParsePairs_def NewPair_def asciiStrings_def
      asciiSpace_def asciiUpper_def validPairs_def BTCUSD_def BTCCHF_def BTCEUR_def
      InMemoryCache_GetLTP_def NewInMemoryCache_def external_GetTickers_def GetTickers_def
      NewKrakenClient_def Let_def)

end
